theory Spec2Isabelle
  imports Main "HOL-Library.Word"
begin

section \<open>The decryptx binding of halo-query\<close>

text \<open>
  \<^verbatim>\<open>src/gamespy-crypto/binding.cpp\<close> exports one function to JavaScript, \<^verbatim>\<open>decryptx\<close>,
  implemented by the C++ function \<^verbatim>\<open>Decryptx\<close>. It checks its arguments, copies them into
  three local arrays, calls the C function \<^verbatim>\<open>enctypex_wrapper\<close> on the arrays and returns
  either \<^verbatim>\<open>null\<close> or a new Buffer with the front of the data array.

  The model below follows \<^verbatim>\<open>Decryptx\<close> statement by statement. Memory is explicit, because
  the properties of interest are about which block is copied, mutated and returned; every
  step that matters (a call of \<^verbatim>\<open>error\<close>, an array declaration, a \<^verbatim>\<open>memcpy\<close>, the
  engine call, \<^verbatim>\<open>Buffer::Copy\<close>) is also recorded in a trace.
\<close>

subsection \<open>JavaScript values and memory\<close>

type_synonym byte = "8 word"
type_synonym c_int = "32 word"
type_synonym addr = nat

text \<open>
  The values a caller can pass. A string is its sequence of UTF-16 code units; a Buffer is
  a reference to a block of bytes.
\<close>

datatype js_value =
    JSUndefined
  | JSNull
  | JSBoolean bool
  | JSNumber int
  | JSString "16 word list"
  | JSBuffer addr

text \<open>
  Memory is a list of blocks; the address of a block is its index. \<open>None\<close> marks a block
  that has been released. Allocation appends, so a new block never has the address of an
  existing one.
\<close>

type_synonym memory = "byte list option list"

definition load :: "memory \<Rightarrow> addr \<Rightarrow> byte list option" where
  "load m a = (if a < length m then m ! a else None)"

definition block :: "memory \<Rightarrow> addr \<Rightarrow> byte list" where
  "block m a = (case load m a of Some bs \<Rightarrow> bs | None \<Rightarrow> [])"

definition alloc :: "byte list \<Rightarrow> memory \<Rightarrow> addr \<times> memory" where
  "alloc bs m = (length m, m @ [Some bs])"

definition store :: "addr \<Rightarrow> byte list \<Rightarrow> memory \<Rightarrow> memory" where
  "store a bs m = m[a := Some bs]"

definition release :: "addr \<Rightarrow> memory \<Rightarrow> memory" where
  "release a m = m[a := None]"

subsection \<open>The state of one call\<close>

datatype event =
    Throw string
  | Alloc addr nat
  | Memcpy addr "byte list"
  | Engine_Call addr addr addr "byte list" "byte list" "byte list" c_int
  | Buffer_Copy addr nat

text \<open>
  A run of \<^verbatim>\<open>Decryptx\<close> can end before its last statement in four ways: a C++ exception
  leaves the function (\<open>Unwinding\<close>); the process is ended by a fatal error of
  node-addon-api (\<open>Aborted\<close>); the local arrays do not fit in the stack and the process is
  killed by a memory fault (\<open>Stack_Overflow\<close>); a \<^verbatim>\<open>memcpy\<close> is asked for more bytes than
  its source or its destination holds, for which the language defines no behaviour
  (\<open>Out_Of_Range\<close>).
\<close>

datatype halt = Unwinding | Aborted | Stack_Overflow | Out_Of_Range

text \<open>
  \<open>pending\<close> is the JavaScript exception pending in the environment, \<open>trace\<close> the steps
  taken so far: \<open>Throw msg\<close> for a call \<^verbatim>\<open>error(env, msg)\<close>, \<open>Alloc a n\<close> for a local
  array of \<open>n\<close> bytes placed at \<open>a\<close>, \<open>Memcpy a bs\<close> for bytes \<open>bs\<close> copied to \<open>a\<close>,
  \<open>Engine_Call k v d kb vb db n\<close> for \<^verbatim>\<open>enctypex_wrapper(k, v, d, n)\<close> with the contents
  the three arrays had at the call, \<open>Buffer_Copy a n\<close> for \<^verbatim>\<open>Buffer::Copy(env, a, n)\<close>.
  Once \<open>halted\<close> is set, no later statement of the function has an effect.
  \<open>stack_left\<close> is the number of bytes of stack that the arrays of the call can still
  take.
\<close>

record napi_env =
  mem :: memory
  pending :: "string option"
  trace :: "event list"
  halted :: "halt option"
  stack_left :: nat

text \<open>
  node-addon-api is compiled in one of two ways, chosen by a macro of the build
  (\<^verbatim>\<open>NAPI_CPP_EXCEPTIONS\<close> or \<^verbatim>\<open>NAPI_DISABLE_CPP_EXCEPTIONS\<close>). The build definition is
  not among the sources, so the choice is a parameter of the model.
\<close>

datatype build = Cpp_Exceptions | No_Cpp_Exceptions

text \<open>
  Two limits of the machine and the runtime, parameters of the model as well:
  \<open>stack_size\<close>, the bytes of stack available to the arrays of one call (the stack of the
  main thread is 8 MiB by default on Linux), and \<open>kMaxLength\<close>, the largest length the
  runtime accepts for a Buffer (\<^verbatim>\<open>buffer.constants.MAX_LENGTH\<close>, which depends on the
  version and the word size of the runtime).
\<close>

record limits =
  stack_size :: nat
  kMaxLength :: nat

subsection \<open>The decode engine\<close>

text \<open>
  \<^verbatim>\<open>enctypex_decoder.h\<close> declares
  \<^verbatim>\<open>int enctypex_wrapper(unsigned char *key, unsigned char *validate, unsigned char *data, int size)\<close>;
  its body is not among the sources. The engine is therefore a parameter of the model: a
  function from the contents of the three arrays and \<open>size\<close> to the returned \<^verbatim>\<open>int\<close> and
  the contents it leaves in the data array. Being a function, it has no state between calls;
  being applied to the arrays it is handed, it touches no other block.
\<close>

type_synonym engine = "byte list \<Rightarrow> byte list \<Rightarrow> byte list \<Rightarrow> c_int \<Rightarrow> c_int \<times> byte list"

text \<open>
  Modelled from the spec: the body of \<^verbatim>\<open>enctypex_wrapper\<close> is missing, and section 4.1 gives
  its contract. The data buffer is mutated in place, so it keeps its length; the result is
  the failure signal \<open>-1\<close>, or the number of decoded bytes at the front of the buffer,
  with \<open>0 \<le> result \<le> length\<close>. The contract is stated for one call.
\<close>

definition engine_contract ::
  "engine \<Rightarrow> byte list \<Rightarrow> byte list \<Rightarrow> byte list \<Rightarrow> c_int \<Rightarrow> bool" where
  "engine_contract eng k v d n \<longleftrightarrow>
     (case eng k v d n of (r, d') \<Rightarrow>
        length d' = length d \<and> (r = - 1 \<or> (0 \<le> sint r \<and> sint r \<le> sint n)))"

subsection \<open>The node-addon-api calls that Decryptx makes\<close>

text \<open>
  These belong to node-addon-api, not to the repository; each is modelled by what it does
  for \<^verbatim>\<open>Decryptx\<close>.

  \<^verbatim>\<open>info[i]\<close> is \<open>undefined\<close> beyond the arguments supplied.
\<close>

definition arg :: "js_value list \<Rightarrow> nat \<Rightarrow> js_value" where
  "arg info i = (if i < length info then info ! i else JSUndefined)"

definition IsString :: "js_value \<Rightarrow> bool" where
  "IsString v = (case v of JSString s \<Rightarrow> True | _ \<Rightarrow> False)"

text \<open>A Buffer value refers to a live block.\<close>

definition IsBuffer :: "memory \<Rightarrow> js_value \<Rightarrow> bool" where
  "IsBuffer m v = (case v of JSBuffer a \<Rightarrow> load m a \<noteq> None | _ \<Rightarrow> False)"

text \<open>
  The bytes of a string are its UTF-8 encoding: one to four bytes for a code
  point, a surrogate pair read as one code point, an unpaired surrogate replaced by U+FFFD.
\<close>

definition utf8_encode :: "nat \<Rightarrow> byte list" where
  "utf8_encode c =
     (if c < 0x80 then [of_nat c]
      else if c < 0x800 then [of_nat (0xC0 + c div 0x40), of_nat (0x80 + c mod 0x40)]
      else if c < 0x10000 then
        [of_nat (0xE0 + c div 0x1000), of_nat (0x80 + c div 0x40 mod 0x40),
         of_nat (0x80 + c mod 0x40)]
      else
        [of_nat (0xF0 + c div 0x40000), of_nat (0x80 + c div 0x1000 mod 0x40),
         of_nat (0x80 + c div 0x40 mod 0x40), of_nat (0x80 + c mod 0x40)])"

definition high_surrogate :: "16 word \<Rightarrow> bool" where
  "high_surrogate u \<longleftrightarrow> 0xD800 \<le> u \<and> u < 0xDC00"

definition low_surrogate :: "16 word \<Rightarrow> bool" where
  "low_surrogate u \<longleftrightarrow> 0xDC00 \<le> u \<and> u < 0xE000"

definition utf8_unit :: "16 word \<Rightarrow> byte list" where
  "utf8_unit u =
     (if high_surrogate u \<or> low_surrogate u then utf8_encode 0xFFFD
      else utf8_encode (unat u))"

fun utf8 :: "16 word list \<Rightarrow> byte list" where
  "utf8 (u # v # us) =
     (if high_surrogate u \<and> low_surrogate v
      then utf8_encode (0x10000 + (unat u - 0xD800) * 0x400 + (unat v - 0xDC00)) @ utf8 us
      else utf8_unit u @ utf8 (v # us))"
| "utf8 [u] = utf8_unit u"
| "utf8 [] = []"

text \<open>
  \<^verbatim>\<open>Error::ThrowAsJavaScriptException()\<close> makes the error the pending exception and
  returns to its caller. It must not be called while an exception is pending: then
  \<^verbatim>\<open>napi_throw\<close> fails, and the call throws a C++ exception (built with C++ exceptions)
  or ends the process with a fatal error (built without).
\<close>

definition stop :: "build \<Rightarrow> halt" where
  "stop b = (case b of Cpp_Exceptions \<Rightarrow> Unwinding | No_Cpp_Exceptions \<Rightarrow> Aborted)"

definition ThrowAsJavaScriptException :: "build \<Rightarrow> string \<Rightarrow> napi_env \<Rightarrow> napi_env" where
  "ThrowAsJavaScriptException b msg env =
     (case pending env of
        None \<Rightarrow> env\<lparr>pending := Some msg\<rparr>
      | Some first \<Rightarrow> env\<lparr>halted := Some (stop b)\<rparr>)"

text \<open>
  A library call that fails (\<^verbatim>\<open>NAPI_THROW_IF_FAILED\<close>): an exception that is pending
  stays, otherwise the library's own error becomes pending. Built with C++ exceptions the
  call throws a C++ exception; built without, it returns a default.
\<close>

definition napi_failed :: "build \<Rightarrow> string \<Rightarrow> napi_env \<Rightarrow> napi_env" where
  "napi_failed b msg env =
     (let env1 = env\<lparr>pending :=
            (case pending env of None \<Rightarrow> Some msg | Some first \<Rightarrow> Some first)\<rparr>
      in case b of
           Cpp_Exceptions \<Rightarrow> env1\<lparr>halted := Some Unwinding\<rparr>
         | No_Cpp_Exceptions \<Rightarrow> env1)"

text \<open>
  \<^verbatim>\<open>info[i].As<Napi::String>().Utf8Value()\<close>; \<^verbatim>\<open>As\<close> does not check the value, and on
  a value that is not a string \<^verbatim>\<open>Utf8Value\<close> fails, with the empty string as default.
\<close>

definition Utf8Value :: "build \<Rightarrow> js_value \<Rightarrow> napi_env \<Rightarrow> byte list \<times> napi_env" where
  "Utf8Value b v env =
     (if halted env \<noteq> None then ([], env)
      else case v of
             JSString s \<Rightarrow> (utf8 s, env)
           | _ \<Rightarrow> ([], napi_failed b ''A string was expected'' env))"

text \<open>
  \<^verbatim>\<open>info[2].As<Napi::Buffer<char>>()\<close>: \<^verbatim>\<open>Data()\<close> is the address of the block and
  \<^verbatim>\<open>Length()\<close> its size. On a value that is not a Buffer reading them fails, with the
  null pointer and 0 as defaults. The model reads them at the conversion; a version of the
  library that reads them at the first \<^verbatim>\<open>Length()\<close>, line 47, fails two array
  declarations later.
\<close>

record napi_buffer =
  Data :: "addr option"
  Length :: nat

definition As_Buffer :: "build \<Rightarrow> js_value \<Rightarrow> napi_env \<Rightarrow> napi_buffer \<times> napi_env" where
  "As_Buffer b v env =
     (if halted env \<noteq> None then (\<lparr>Data = None, Length = 0\<rparr>, env)
      else case v of
             JSBuffer a \<Rightarrow>
               (case load (mem env) a of
                  Some bs \<Rightarrow> (\<lparr>Data = Some a, Length = length bs\<rparr>, env)
                | None \<Rightarrow> (\<lparr>Data = None, Length = 0\<rparr>, napi_failed b ''Invalid argument'' env))
           | _ \<Rightarrow> (\<lparr>Data = None, Length = 0\<rparr>, napi_failed b ''Invalid argument'' env))"

definition deref :: "memory \<Rightarrow> addr option \<Rightarrow> byte list" where
  "deref m p = (case p of Some a \<Rightarrow> block m a | None \<Rightarrow> [])"

text \<open>
  The two integer conversions of the source: \<^verbatim>\<open>data.Length()\<close> (a \<^verbatim>\<open>size_t\<close>) is passed
  for the parameter \<^verbatim>\<open>int size\<close>, and \<^verbatim>\<open>int end_size\<close> is passed for the
  \<^verbatim>\<open>size_t length\<close> of \<^verbatim>\<open>Buffer::Copy\<close>.
\<close>

definition int_of_size_t :: "nat \<Rightarrow> c_int" where
  "int_of_size_t n = of_nat n"

definition size_t_of_int :: "c_int \<Rightarrow> nat" where
  "size_t_of_int i = nat (sint i mod 2 ^ 64)"

text \<open>
  \<^verbatim>\<open>Napi::Buffer<char>::Copy(env, data, length)\<close> makes a new Buffer with a copy of
  \<open>length\<close> bytes starting at \<open>data\<close>. Three things can keep it from that.

    \<^item> With an exception pending the call fails and creates nothing.

    \<^item> A length above \<open>kMaxLength\<close> is refused by the runtime before a byte is read: the
      call fails with the runtime's own error (\<^verbatim>\<open>ERR_BUFFER_TOO_LARGE\<close>; its text depends
      on the version of the runtime), which the caller can catch.

    \<^item> A length that the runtime accepts, but above the size of the array at \<open>data\<close>, makes
      the copy read past the array: the caller gets a Buffer that starts with the array and
      goes on with whatever follows it on the stack. Nothing in the source fixes these
      bytes, so the model gives the Buffer no value and ends with \<open>Overrun\<close>.
\<close>

datatype ret = Value js_value | Empty | Overrun

definition Copy :: "build \<Rightarrow> limits \<Rightarrow> addr \<Rightarrow> nat \<Rightarrow> napi_env \<Rightarrow> ret \<times> napi_env" where
  "Copy b lim src n env =
     (if halted env \<noteq> None then (Empty, env)
      else
        (let env1 = env\<lparr>trace := trace env @ [Buffer_Copy src n]\<rparr>
         in if pending env \<noteq> None then (Empty, napi_failed b ''Invalid argument'' env1)
            else if kMaxLength lim < n
              then (Empty, napi_failed b ''ERR_BUFFER_TOO_LARGE'' env1)
            else if length (block (mem env) src) < n then (Overrun, env1)
            else (let (a, m) = alloc (take n (block (mem env) src)) (mem env)
                  in (Value (JSBuffer a), env1\<lparr>mem := m\<rparr>))))"

subsection \<open>binding.cpp\<close>

text \<open>
  \<^verbatim>\<open>void error(Napi::Env& env, const char* msg)\<close>, lines 16 to 18:
  \<^verbatim>\<open>Napi::TypeError::New(env, msg).ThrowAsJavaScriptException()\<close>.
\<close>

definition error :: "build \<Rightarrow> napi_env \<Rightarrow> string \<Rightarrow> napi_env" where
  "error b env msg =
     (if halted env \<noteq> None then env
      else ThrowAsJavaScriptException b msg (env\<lparr>trace := trace env @ [Throw msg]\<rparr>))"

text \<open>
  \<^verbatim>\<open>unsigned char a[n]\<close>, lines 45 to 47: a local array of \<open>n\<close> bytes, taken from the
  stack. The size comes from the caller and is not checked. An array that does not fit in
  what is left of the stack ends the process with a memory fault: at the declaration when
  the compiler probes the stack, else at the first call or write below the stack; the
  model ends the run at the declaration. The initial contents of the array are
  indeterminate; the model takes zeros, and every byte is overwritten by the \<^verbatim>\<open>memcpy\<close>
  that follows. (In a halted run nothing is declared; the address returned is that of no
  block.)
\<close>

definition vla :: "nat \<Rightarrow> napi_env \<Rightarrow> addr \<times> napi_env" where
  "vla n env =
     (if halted env \<noteq> None then (length (mem env), env)
      else if stack_left env < n
        then (length (mem env), env\<lparr>halted := Some Stack_Overflow\<rparr>)
      else
        (let (a, m) = alloc (replicate n 0) (mem env)
         in (a, env\<lparr>mem := m, trace := trace env @ [Alloc a n],
                   stack_left := stack_left env - n\<rparr>)))"

text \<open>
  \<^verbatim>\<open>memcpy(dst, src, n)\<close>: the first \<open>n\<close> bytes at \<open>dst\<close> become the first \<open>n\<close> bytes
  of the source. Both must hold \<open>n\<close> bytes; otherwise the copy reads or writes outside an
  array, and the run ends with \<open>Out_Of_Range\<close>.
\<close>

definition memcpy :: "addr \<Rightarrow> byte list \<Rightarrow> nat \<Rightarrow> napi_env \<Rightarrow> napi_env" where
  "memcpy dst src n env =
     (if halted env \<noteq> None then env
      else if length (block (mem env) dst) < n \<or> length src < n
        then env\<lparr>halted := Some Out_Of_Range\<rparr>
      else
        env\<lparr>mem := store dst (take n src @ drop n (block (mem env) dst)) (mem env),
            trace := trace env @ [Memcpy dst (take n src)]\<rparr>)"

text \<open>
  The call \<^verbatim>\<open>enctypex_wrapper(key, validate, data, size)\<close>, lines 53 to 58: the engine
  reads the three arrays and leaves its output in the data array.
\<close>

definition enctypex_wrapper ::
  "engine \<Rightarrow> addr \<Rightarrow> addr \<Rightarrow> addr \<Rightarrow> c_int \<Rightarrow> napi_env \<Rightarrow> c_int \<times> napi_env" where
  "enctypex_wrapper eng key validate data sz env =
     (if halted env \<noteq> None then (0, env)
      else
        (let k = block (mem env) key;
             v = block (mem env) validate;
             d = block (mem env) data;
             (r, d') = eng k v d sz
         in (r, env\<lparr>mem := store data d' (mem env),
                    trace := trace env @ [Engine_Call key validate data k v d sz]\<rparr>)))"

text \<open>
  Leaving the function, by return or by a C++ exception, releases its local arrays.
  (\<open>stack_left\<close> is not counted back: it matters to the declarations only.)
\<close>

definition leave :: "addr list \<Rightarrow> napi_env \<Rightarrow> napi_env" where
  "leave locals env = env\<lparr>mem := fold release locals (mem env)\<rparr>"

text \<open>
  \<^verbatim>\<open>Napi::Value Decryptx(const Napi::CallbackInfo& info)\<close>, lines 20 to 67. None of the
  four checks returns after \<^verbatim>\<open>error\<close>: the next statement runs.
\<close>

definition Decryptx ::
  "build \<Rightarrow> limits \<Rightarrow> engine \<Rightarrow> js_value list \<Rightarrow> napi_env \<Rightarrow> ret \<times> napi_env" where
  "Decryptx b lim eng info env0 =
     (let env1 = (if length info < 3 then error b env0 ''Expected 3 arguments'' else env0);
          env2 = (if \<not> IsString (arg info 0)
                  then error b env1 ''Expected key to be a string'' else env1);
          env3 = (if \<not> IsString (arg info 1)
                  then error b env2 ''Expected validate to be a string'' else env2);
          env4 = (if \<not> IsBuffer (mem env3) (arg info 2)
                  then error b env3 ''Expected data to be a Buffer'' else env3);
          (key, env5) = Utf8Value b (arg info 0) env4;
          (validate, env6) = Utf8Value b (arg info 1) env5;
          (data, env7) = As_Buffer b (arg info 2) env6;
          (mutable_key, env8) = vla (length key) env7;
          (mutable_validate, env9) = vla (length validate) env8;
          (mutable_data, env10) = vla (Length data) env9;
          env11 = memcpy mutable_key key (length key) env10;
          env12 = memcpy mutable_validate validate (length validate) env11;
          env13 = memcpy mutable_data (deref (mem env12) (Data data)) (Length data) env12;
          (end_size, env14) =
            enctypex_wrapper eng mutable_key mutable_validate mutable_data
              (int_of_size_t (Length data)) env13;
          locals = [mutable_data, mutable_validate, mutable_key]
      in if end_size = - 1 then (Value JSNull, leave locals env14)
         else (let (r, env15) = Copy b lim mutable_data (size_t_of_int end_size) env14
               in (r, leave locals env15)))"

text \<open>
  What the JavaScript caller of \<^verbatim>\<open>decryptx\<close> (registered by \<^verbatim>\<open>Init\<close>, lines 69 to 75)
  gets. The call starts with no exception pending and the whole of \<open>stack_size\<close> for its
  arrays. When \<^verbatim>\<open>Decryptx\<close> returns, or is left by a C++ exception, with an exception
  pending, the call throws it and a returned value is dropped. After a fatal error or a
  memory fault there is no caller to return to.
\<close>

datatype outcome =
    Returned js_value
  | Thrown string
  | Out_Of_Bounds
  | Process_Aborted
  | Process_Crashed

definition decryptx ::
  "build \<Rightarrow> limits \<Rightarrow> engine \<Rightarrow> js_value list \<Rightarrow> memory \<Rightarrow> outcome \<times> napi_env" where
  "decryptx b lim eng info m =
     (let (r, env) =
            Decryptx b lim eng info
              \<lparr>mem = m, pending = None, trace = [], halted = None,
                 stack_left = stack_size lim\<rparr>
      in (case halted env of
            Some Aborted \<Rightarrow> Process_Aborted
          | Some Stack_Overflow \<Rightarrow> Process_Crashed
          | Some Out_Of_Range \<Rightarrow> Out_Of_Bounds
          | Some Unwinding \<Rightarrow>
              (case pending env of
                 Some msg \<Rightarrow> Thrown msg
               | None \<Rightarrow> Thrown ''Error in native callback'')
          | None \<Rightarrow>
              (case r of
                 Overrun \<Rightarrow> Out_Of_Bounds
               | Empty \<Rightarrow>
                   (case pending env of
                      Some msg \<Rightarrow> Thrown msg
                    | None \<Rightarrow> Returned JSUndefined)
               | Value v \<Rightarrow>
                   (case pending env of Some msg \<Rightarrow> Thrown msg | None \<Rightarrow> Returned v)),
          env))"

subsection \<open>Notions used to state the properties\<close>

text \<open>The preconditions of section 4.2: a call is well formed when all four hold.\<close>

definition well_formed :: "js_value list \<Rightarrow> memory \<Rightarrow> bool" where
  "well_formed info m \<longleftrightarrow>
     3 \<le> length info \<and> IsString (arg info 0) \<and> IsString (arg info 1) \<and>
     IsBuffer m (arg info 2)"

text \<open>The failure of the first precondition that is violated, in the order of the checks.\<close>

definition first_violation :: "js_value list \<Rightarrow> memory \<Rightarrow> string" where
  "first_violation info m =
     (if length info < 3 then ''Expected 3 arguments''
      else if \<not> IsString (arg info 0) then ''Expected key to be a string''
      else if \<not> IsString (arg info 1) then ''Expected validate to be a string''
      else ''Expected data to be a Buffer'')"

text \<open>The failures of all violated preconditions, in the order of the checks.\<close>

definition violations :: "js_value list \<Rightarrow> memory \<Rightarrow> string list" where
  "violations info m =
     (if length info < 3 then [''Expected 3 arguments''] else []) @
     (if \<not> IsString (arg info 0) then [''Expected key to be a string''] else []) @
     (if \<not> IsString (arg info 1) then [''Expected validate to be a string''] else []) @
     (if \<not> IsBuffer m (arg info 2) then [''Expected data to be a Buffer''] else [])"

text \<open>The exception that stays pending when these failures are thrown in turn.\<close>

definition first_pending :: "string list \<Rightarrow> string option" where
  "first_pending msgs = (case msgs of [] \<Rightarrow> None | msg # _ \<Rightarrow> Some msg)"

text \<open>
  The bytes of the three inputs (none for an argument of the wrong kind), and the engine
  applied to them.
\<close>

definition Buffer_bytes :: "memory \<Rightarrow> js_value \<Rightarrow> byte list" where
  "Buffer_bytes m v = (case v of JSBuffer a \<Rightarrow> block m a | _ \<Rightarrow> [])"

text \<open>What \<^verbatim>\<open>Data()\<close> and \<^verbatim>\<open>Length()\<close> yield for an argument.\<close>

definition Buffer_view :: "memory \<Rightarrow> js_value \<Rightarrow> napi_buffer" where
  "Buffer_view m v =
     (case v of
        JSBuffer a \<Rightarrow>
          (case load m a of
             Some bs \<Rightarrow> \<lparr>Data = Some a, Length = length bs\<rparr>
           | None \<Rightarrow> \<lparr>Data = None, Length = 0\<rparr>)
      | _ \<Rightarrow> \<lparr>Data = None, Length = 0\<rparr>)"

definition String_bytes :: "js_value \<Rightarrow> byte list" where
  "String_bytes v = (case v of JSString s \<Rightarrow> utf8 s | _ \<Rightarrow> [])"

definition key_bytes :: "js_value list \<Rightarrow> byte list" where
  "key_bytes info = String_bytes (arg info 0)"

definition validate_bytes :: "js_value list \<Rightarrow> byte list" where
  "validate_bytes info = String_bytes (arg info 1)"

definition data_bytes :: "memory \<Rightarrow> js_value list \<Rightarrow> byte list" where
  "data_bytes m info = Buffer_bytes m (arg info 2)"

definition engine_run :: "engine \<Rightarrow> js_value list \<Rightarrow> memory \<Rightarrow> c_int \<times> byte list" where
  "engine_run eng info m =
     eng (key_bytes info) (validate_bytes info) (data_bytes m info)
       (int_of_size_t (length (data_bytes m info)))"

text \<open>The engine keeps its contract on the call that \<^verbatim>\<open>Decryptx\<close> makes.\<close>

definition in_contract :: "engine \<Rightarrow> js_value list \<Rightarrow> memory \<Rightarrow> bool" where
  "in_contract eng info m \<longleftrightarrow>
     engine_contract eng (key_bytes info) (validate_bytes info) (data_bytes m info)
       (int_of_size_t (length (data_bytes m info)))"

text \<open>
  The steps from the first array declaration to the engine call, for arrays placed from
  address \<open>n\<close> on.
\<close>

definition marshalled :: "addr \<Rightarrow> byte list \<Rightarrow> byte list \<Rightarrow> byte list \<Rightarrow> event list" where
  "marshalled n k v d =
     [Alloc n (length k), Alloc (Suc n) (length v), Alloc (Suc (Suc n)) (length d),
      Memcpy n k, Memcpy (Suc n) v, Memcpy (Suc (Suc n)) d,
      Engine_Call n (Suc n) (Suc (Suc n)) k v d (int_of_size_t (length d))]"





text \<open>
  The three arrays of a call fit in the stack. The arrays are declared with the lengths of
  the bytes that the conversions give.
\<close>

definition on_stack :: "limits \<Rightarrow> js_value list \<Rightarrow> memory \<Rightarrow> bool" where
  "on_stack lim info m \<longleftrightarrow>
     length (key_bytes info) + length (validate_bytes info) + length (data_bytes m info)
       \<le> stack_size lim"

text \<open>The data Buffer is one the runtime can hold.\<close>

definition data_allowed :: "limits \<Rightarrow> js_value list \<Rightarrow> memory \<Rightarrow> bool" where
  "data_allowed lim info m \<longleftrightarrow> length (data_bytes m info) \<le> kMaxLength lim"

text \<open>
  \<^verbatim>\<open>Decryptx\<close> gets past its checks and conversions when every check passes, and also,
  built without C++ exceptions, when exactly one check fails. It reaches its engine call
  when, past them, the arrays fit in the stack.
\<close>

definition passes :: "build \<Rightarrow> js_value list \<Rightarrow> memory \<Rightarrow> bool" where
  "passes b info m \<longleftrightarrow>
     violations info m = [] \<or> (b = No_Cpp_Exceptions \<and> length (violations info m) = 1)"

definition reaches_engine :: "build \<Rightarrow> limits \<Rightarrow> js_value list \<Rightarrow> memory \<Rightarrow> bool" where
  "reaches_engine b lim info m \<longleftrightarrow> passes b info m \<and> on_stack lim info m"

text \<open>
  The array declarations of a run in which one array does not fit, for a stack of \<open>cap\<close>
  bytes and arrays placed from address \<open>n\<close> on.
\<close>

definition declared :: "nat \<Rightarrow> addr \<Rightarrow> byte list \<Rightarrow> byte list \<Rightarrow> event list" where
  "declared cap n k v =
     (if cap < length k then []
      else if cap < length k + length v then [Alloc n (length k)]
      else [Alloc n (length k), Alloc (Suc n) (length v)])"

text \<open>
  Limits for concrete runs: a stack of 8 MiB and Buffers of up to \<open>2^32\<close> bytes; and the
  same with a stack of 4 GiB.
\<close>

definition default_limits :: limits where
  "default_limits = \<lparr>stack_size = 8388608, kMaxLength = 4294967296\<rparr>"

definition large_stack :: limits where
  "large_stack = \<lparr>stack_size = 4294967296, kMaxLength = 4294967296\<rparr>"

text \<open>
  A stand-in engine for concrete runs: it fails on an empty key or an empty buffer, and
  otherwise drops the first byte of the buffer.
\<close>

definition sample_engine :: engine where
  "sample_engine k v d n = (if k = [] \<or> d = [] then (- 1, d) else (n - 1, tl d @ [0]))"

section \<open>Memory lemmas\<close>

lemma load_Nil [simp]: "load [] k = None"
  by (simp add: load_def)

lemma load_Cons_0 [simp]: "load (x # xs) 0 = x"
  by (simp add: load_def)

lemma load_Cons_Suc [simp]: "load (x # xs) (Suc k) = load xs k"
  by (simp add: load_def)

lemma store_Cons_0 [simp]: "store 0 bs (x # xs) = Some bs # xs"
  by (simp add: store_def)

lemma store_Cons_Suc [simp]: "store (Suc k) bs (x # xs) = x # store k bs xs"
  by (simp add: store_def)

lemma release_Cons_0 [simp]: "release 0 (x # xs) = None # xs"
  by (simp add: release_def)

lemma release_Cons_Suc [simp]: "release (Suc k) (x # xs) = x # release k xs"
  by (simp add: release_def)

lemma load_old [simp]: "a < length m \<Longrightarrow> load (m @ xs) a = load m a"
  by (simp add: load_def nth_append)

lemma load_new: "load (m @ xs) (length m + k) = load xs k"
  by (simp add: load_def nth_append)

lemma load_new0 [simp]: "load (m @ xs) (length m) = load xs 0"
  using load_new [of m xs 0] by simp

lemma load_new1 [simp]: "load (m @ x # xs) (Suc (length m)) = load xs 0"
  using load_new [of m "x # xs" "Suc 0"] by simp

lemma load_new2 [simp]: "load (m @ x # y # xs) (Suc (Suc (length m))) = load xs 0"
  using load_new [of m "x # y # xs" "Suc (Suc 0)"] by simp

lemma load_new3 [simp]:
  "load (m @ x # y # z # xs) (Suc (Suc (Suc (length m)))) = load xs 0"
  using load_new [of m "x # y # z # xs" "Suc (Suc (Suc 0))"] by simp

lemma load_beyond: "length m \<le> a \<Longrightarrow> load m a = None"
  by (simp add: load_def)

lemma load_live: "load m a = Some bs \<Longrightarrow> a < length m"
  by (simp add: load_def split: if_splits)

lemma load_store_other: "a \<noteq> p \<Longrightarrow> load (store p bs m) a = load m a"
  by (simp add: load_def store_def)

lemma store_new: "store (length m + k) bs (m @ xs) = m @ store k bs xs"
  by (simp add: store_def list_update_append)

lemma store_new0 [simp]: "store (length m) bs (m @ xs) = m @ store 0 bs xs"
  using store_new [of m 0] by simp

lemma store_new1 [simp]: "store (Suc (length m)) bs (m @ xs) = m @ store (Suc 0) bs xs"
  using store_new [of m "Suc 0"] by simp

lemma store_new2 [simp]:
  "store (Suc (Suc (length m))) bs (m @ xs) = m @ store (Suc (Suc 0)) bs xs"
  using store_new [of m "Suc (Suc 0)"] by simp

lemma release_new: "release (length m + k) (m @ xs) = m @ release k xs"
  by (simp add: release_def list_update_append)

lemma release_new0 [simp]: "release (length m) (m @ xs) = m @ release 0 xs"
  using release_new [of m 0] by simp

lemma release_new1 [simp]: "release (Suc (length m)) (m @ xs) = m @ release (Suc 0) xs"
  using release_new [of m "Suc 0"] by simp

lemma release_new2 [simp]:
  "release (Suc (Suc (length m))) (m @ xs) = m @ release (Suc (Suc 0)) xs"
  using release_new [of m "Suc (Suc 0)"] by simp

lemma release_beyond [simp]: "release (length m) m = m"
  by (simp add: release_def list_update_beyond)

lemma release_Nil [simp]: "release k [] = []"
  by (simp add: release_def)

lemma Buffer_bytes_live: "IsBuffer m v \<Longrightarrow> \<exists>a bs. v = JSBuffer a \<and> load m a = Some bs \<and> Buffer_bytes m v = bs"
  by (auto simp: IsBuffer_def Buffer_bytes_def block_def split: js_value.splits)

lemma Buffer_bytes_none: "\<not> IsBuffer m v \<Longrightarrow> Buffer_bytes m v = []"
  by (auto simp: IsBuffer_def Buffer_bytes_def block_def split: js_value.splits)

lemma String_bytes_none: "\<not> IsString v \<Longrightarrow> String_bytes v = []"
  by (auto simp: IsString_def String_bytes_def split: js_value.splits)

section \<open>The integer conversions\<close>

lemma size_t_of_int_nonneg: "0 \<le> sint i \<Longrightarrow> size_t_of_int i = nat (sint i)"
proof -
  assume nonneg: "0 \<le> sint i"
  have "sint i < 2 ^ 31"
    using sint_lt [of i] by simp
  then have "sint i < 2 ^ 64"
    by simp
  with nonneg show ?thesis
    by (simp add: size_t_of_int_def)
qed

lemma sint_le_uint: "sint (w :: c_int) \<le> uint w"
proof -
  have "- (2 ^ 31) \<le> uint w"
    by (rule order_trans [of _ 0]) simp_all
  then show ?thesis
    by (simp add: sint_uint signed_take_bit_int_less_eq_self_iff)
qed

lemma sint_int_of_size_t_le: "sint (int_of_size_t n) \<le> int n"
proof -
  have "uint (of_nat n :: c_int) = int (n mod 2 ^ 32)"
    by (simp add: uint_nat unat_of_nat)
  also have "\<dots> \<le> int n"
    by simp
  finally show ?thesis
    using sint_le_uint [of "of_nat n"] by (simp add: int_of_size_t_def)
qed

lemma sint_int_of_size_t: "n < 2 ^ 31 \<Longrightarrow> sint (int_of_size_t n) = int n"
proof -
  assume small: "n < 2 ^ 31"
  then have "n < 2 ^ 32"
    by simp
  then have "uint (of_nat n :: c_int) = int n"
    by (simp add: uint_nat unat_of_nat)
  moreover have "int n < 2 ^ 31"
    using small by simp
  ultimately show ?thesis
    by (simp add: int_of_size_t_def sint_uint signed_take_bit_int_eq_self)
qed

lemma within_length:
  assumes "0 \<le> sint r" "sint r \<le> sint (int_of_size_t n)"
  shows "size_t_of_int r \<le> n"
  using assms sint_int_of_size_t_le [of n] by (simp add: size_t_of_int_nonneg)

section \<open>UTF-8\<close>

lemma length_utf8_encode: "Suc 0 \<le> length (utf8_encode c)"
  by (simp add: utf8_encode_def)

lemma length_utf8_encode_wide: "0x80 \<le> c \<Longrightarrow> Suc (Suc 0) \<le> length (utf8_encode c)"
  by (simp add: utf8_encode_def)

lemma length_utf8_encode_pair: "0x10000 \<le> c \<Longrightarrow> length (utf8_encode c) = 4"
  by (simp add: utf8_encode_def)

lemma length_utf8_unit: "Suc 0 \<le> length (utf8_unit u)"
  by (simp add: utf8_unit_def length_utf8_encode)

lemma length_utf8_unit_wide:
  assumes "0x80 \<le> u"
  shows "Suc (Suc 0) \<le> length (utf8_unit u)"
proof -
  have "unat (0x80 :: 16 word) \<le> unat u"
    using assms by (simp only: word_le_nat_alt)
  then have "0x80 \<le> unat u"
    by simp
  then show ?thesis
    by (simp add: utf8_unit_def length_utf8_encode_wide)
qed


lemma utf8_pair:
  "high_surrogate u \<and> low_surrogate v \<Longrightarrow>
   length (utf8 (u # v # us)) = 4 + length (utf8 us)"
  by (simp add: length_utf8_encode_pair)

lemma utf8_single:
  "\<not> (high_surrogate u \<and> low_surrogate v) \<Longrightarrow>
   length (utf8 (u # v # us)) = length (utf8_unit u) + length (utf8 (v # us))"
  by auto

lemma length_utf8: "length s \<le> length (utf8 s)"
proof (induction s rule: utf8.induct)
  case (1 u v us)
  show ?case
  proof (cases "high_surrogate u \<and> low_surrogate v")
    case True
    have "length us \<le> length (utf8 us)"
      by (rule "1.IH"(1) [OF True])
    then show ?thesis
      unfolding utf8_pair [OF True] by simp
  next
    case False
    have "length (v # us) \<le> length (utf8 (v # us))"
      by (rule "1.IH"(2) [OF False])
    then show ?thesis
      unfolding utf8_single [OF False] using length_utf8_unit [of u]
      by (simp del: utf8.simps)
  qed
next
  case (2 u)
  then show ?case
    using length_utf8_unit [of u] by simp
next
  case 3
  then show ?case by simp
qed

lemma length_utf8_wide:
  assumes "\<exists>u \<in> set s. 0x80 \<le> u"
  shows "length s < length (utf8 s)"
  using assms
proof (induction s rule: utf8.induct)
  case (1 u v us)
  show ?case
  proof (cases "high_surrogate u \<and> low_surrogate v")
    case True
    show ?thesis
      unfolding utf8_pair [OF True] using length_utf8 [of us] by simp
  next
    case False
    show ?thesis
    proof (cases "0x80 \<le> u")
      case True
      show ?thesis
        unfolding utf8_single [OF False]
        using length_utf8_unit_wide [OF True] length_utf8 [of "v # us"]
        by (simp del: utf8.simps)
    next
      case narrow: False
      with "1.prems" have "\<exists>w \<in> set (v # us). 0x80 \<le> w"
        by auto
      then have "length (v # us) < length (utf8 (v # us))"
        by (rule "1.IH"(2) [OF False])
      then show ?thesis
        unfolding utf8_single [OF False] using length_utf8_unit [of u]
        by (simp del: utf8.simps)
    qed
  qed
next
  case (2 u)
  then show ?case
    using length_utf8_unit_wide [of u] by simp
next
  case 3
  then show ?case by simp
qed


section \<open>Running Decryptx\<close>

lemma Length_Buffer_view [simp]: "Length (Buffer_view m v) = length (Buffer_bytes m v)"
  by (simp add: Buffer_view_def Buffer_bytes_def block_def split: js_value.splits option.splits)

lemma deref_Buffer_view [simp]: "deref (m @ xs) (Data (Buffer_view m v)) = Buffer_bytes m v"
proof (cases v)
  case (JSBuffer a)
  show ?thesis
  proof (cases "load m a")
    case None
    with JSBuffer show ?thesis
      by (simp add: Buffer_view_def Buffer_bytes_def block_def deref_def)
  next
    case (Some bs)
    then have "load (m @ xs) a = Some bs"
      using load_live [OF Some] by simp
    with JSBuffer Some show ?thesis
      by (simp add: Buffer_view_def Buffer_bytes_def block_def deref_def)
  qed
qed (simp_all add: Buffer_view_def Buffer_bytes_def deref_def)

lemma Utf8Value_runs:
  assumes "halted env = None"
    and "IsString v \<or> (b = No_Cpp_Exceptions \<and> pending env \<noteq> None)"
  shows "Utf8Value b v env = (String_bytes v, env)"
  using assms
  by (cases v) (auto simp: Utf8Value_def IsString_def String_bytes_def napi_failed_def)

lemma Utf8Value_unwinds:
  assumes "halted env = None" and "\<not> IsString v" and "pending env \<noteq> None"
  shows "Utf8Value Cpp_Exceptions v env = ([], env\<lparr>halted := Some Unwinding\<rparr>)"
  using assms
  by (cases v) (auto simp: Utf8Value_def IsString_def napi_failed_def)

lemma As_Buffer_runs:
  assumes "halted env = None"
    and "IsBuffer (mem env) v \<or> (b = No_Cpp_Exceptions \<and> pending env \<noteq> None)"
  shows "As_Buffer b v env = (Buffer_view (mem env) v, env)"
  using assms
  by (cases v)
    (auto simp: As_Buffer_def IsBuffer_def Buffer_view_def napi_failed_def split: option.splits)

lemma As_Buffer_unwinds:
  assumes "halted env = None" and "\<not> IsBuffer (mem env) v" and "pending env \<noteq> None"
  shows "As_Buffer Cpp_Exceptions v env =
     (\<lparr>Data = None, Length = 0\<rparr>, env\<lparr>halted := Some Unwinding\<rparr>)"
  using assms
  by (cases v) (auto simp: As_Buffer_def IsBuffer_def napi_failed_def split: option.splits)

lemma error_first:
  "error b \<lparr>mem = m, pending = None, trace = t, halted = None, stack_left = s\<rparr> msg =
     \<lparr>mem = m, pending = Some msg, trace = t @ [Throw msg], halted = None, stack_left = s\<rparr>"
  by (simp add: error_def ThrowAsJavaScriptException_def)

lemma error_second:
  "error b \<lparr>mem = m, pending = Some first, trace = t, halted = None, stack_left = s\<rparr> msg =
     \<lparr>mem = m, pending = Some first, trace = t @ [Throw msg], halted = Some (stop b), stack_left = s\<rparr>"
  by (simp add: error_def ThrowAsJavaScriptException_def stop_def)

lemma error_halted:
  "error b \<lparr>mem = m, pending = p, trace = t, halted = Some h, stack_left = s\<rparr> msg =
     \<lparr>mem = m, pending = p, trace = t, halted = Some h, stack_left = s\<rparr>"
  by (simp add: error_def)

lemma checks_run:
  "(let env1 = (if length info < 3
                then error b \<lparr>mem = m, pending = None, trace = [], halted = None, stack_left = s\<rparr>
                       ''Expected 3 arguments''
                else \<lparr>mem = m, pending = None, trace = [], halted = None, stack_left = s\<rparr>);
        env2 = (if \<not> IsString (arg info 0)
                then error b env1 ''Expected key to be a string'' else env1);
        env3 = (if \<not> IsString (arg info 1)
                then error b env2 ''Expected validate to be a string'' else env2);
        env4 = (if \<not> IsBuffer (mem env3) (arg info 2)
                then error b env3 ''Expected data to be a Buffer'' else env3)
    in f env4) =
   f \<lparr>mem = m, pending = first_pending (violations info m),
      trace = map Throw (take 2 (violations info m)),
      halted = (if 2 \<le> length (violations info m) then Some (stop b) else None), stack_left = s\<rparr>"
  by (simp add: Let_def error_first error_second error_halted violations_def first_pending_def
      eval_nat_numeral)


lemma Utf8Value_halted: "halted env = Some h \<Longrightarrow> Utf8Value b v env = ([], env)"
  by (simp add: Utf8Value_def)

lemma As_Buffer_halted:
  "halted env = Some h \<Longrightarrow> As_Buffer b v env = (\<lparr>Data = None, Length = 0\<rparr>, env)"
  by (simp add: As_Buffer_def)

lemma vla_halted: "halted env = Some h \<Longrightarrow> vla n env = (length (mem env), env)"
  by (simp add: vla_def)

lemma memcpy_halted: "halted env = Some h \<Longrightarrow> memcpy dst src n env = env"
  by (simp add: memcpy_def)

lemma enctypex_wrapper_halted:
  "halted env = Some h \<Longrightarrow> enctypex_wrapper eng k v d n env = (0, env)"
  by (simp add: enctypex_wrapper_def)

lemma Copy_halted: "halted env = Some h \<Longrightarrow> Copy b lim src n env = (Empty, env)"
  by (simp add: Copy_def)

lemma leave_nothing:
  "mem env = m \<Longrightarrow> leave [length m, length m, length m] env = env"
  by (auto simp: leave_def)

lemmas halted_simps =
  Utf8Value_halted As_Buffer_halted vla_halted memcpy_halted enctypex_wrapper_halted
  Copy_halted

lemma body_halted:
  assumes "halted env4 = Some h"
  shows
    "(let (key, env5) = Utf8Value b (arg info 0) env4;
          (validate, env6) = Utf8Value b (arg info 1) env5;
          (data, env7) = As_Buffer b (arg info 2) env6;
          (mutable_key, env8) = vla (length key) env7;
          (mutable_validate, env9) = vla (length validate) env8;
          (mutable_data, env10) = vla (Length data) env9;
          env11 = memcpy mutable_key key (length key) env10;
          env12 = memcpy mutable_validate validate (length validate) env11;
          env13 = memcpy mutable_data (deref (mem env12) (Data data)) (Length data) env12;
          (end_size, env14) =
            enctypex_wrapper eng mutable_key mutable_validate mutable_data
              (int_of_size_t (Length data)) env13;
          locals = [mutable_data, mutable_validate, mutable_key]
      in if end_size = - 1 then (Value JSNull, leave locals env14)
         else (let (r, env15) = Copy b lim mutable_data (size_t_of_int end_size) env14
               in (r, leave locals env15))) =
     (Empty, env4)"
  by (simp add: halted_simps [OF assms] leave_nothing)


lemma body_unwinds:
  assumes "halted env4 = None" and "pending env4 \<noteq> None"
    and "\<not> (IsString (arg info 0) \<and> IsString (arg info 1) \<and> IsBuffer (mem env4) (arg info 2))"
  shows
    "(let (key, env5) = Utf8Value Cpp_Exceptions (arg info 0) env4;
          (validate, env6) = Utf8Value Cpp_Exceptions (arg info 1) env5;
          (data, env7) = As_Buffer Cpp_Exceptions (arg info 2) env6;
          (mutable_key, env8) = vla (length key) env7;
          (mutable_validate, env9) = vla (length validate) env8;
          (mutable_data, env10) = vla (Length data) env9;
          env11 = memcpy mutable_key key (length key) env10;
          env12 = memcpy mutable_validate validate (length validate) env11;
          env13 = memcpy mutable_data (deref (mem env12) (Data data)) (Length data) env12;
          (end_size, env14) =
            enctypex_wrapper eng mutable_key mutable_validate mutable_data
              (int_of_size_t (Length data)) env13;
          locals = [mutable_data, mutable_validate, mutable_key]
      in if end_size = - 1 then (Value JSNull, leave locals env14)
         else (let (r, env15) = Copy Cpp_Exceptions lim mutable_data (size_t_of_int end_size) env14
               in (r, leave locals env15))) =
     (Empty, env4\<lparr>halted := Some Unwinding\<rparr>)"
proof (cases "IsString (arg info 0)")
  case False
  show ?thesis
    by (simp add: Utf8Value_unwinds [OF assms(1) False assms(2)] halted_simps leave_nothing)
next
  case key: True
  note k = Utf8Value_runs [OF assms(1) disjI1 [OF key]]
  show ?thesis
  proof (cases "IsString (arg info 1)")
    case False
    show ?thesis
      by (simp add: k Utf8Value_unwinds [OF assms(1) False assms(2), unfolded One_nat_def]
          halted_simps leave_nothing)
  next
    case validate: True
    note v = Utf8Value_runs [OF assms(1) disjI1 [OF validate]]
    from assms(3) key validate have "\<not> IsBuffer (mem env4) (arg info 2)"
      by simp
    note d = As_Buffer_unwinds [OF assms(1) this assms(2)]
    show ?thesis
      by (simp add: k v [unfolded One_nat_def] d halted_simps leave_nothing)
  qed
qed

lemma marshal_run:
  assumes "halted env4 = None" and "mem env4 = m"
    and "IsString (arg info 0) \<or> (b = No_Cpp_Exceptions \<and> pending env4 \<noteq> None)"
    and "IsString (arg info 1) \<or> (b = No_Cpp_Exceptions \<and> pending env4 \<noteq> None)"
    and "IsBuffer m (arg info 2) \<or> (b = No_Cpp_Exceptions \<and> pending env4 \<noteq> None)"
    and "engine_run eng info m = (r, d')"
    and "length (key_bytes info) + length (validate_bytes info) + length (data_bytes m info)
           \<le> stack_left env4"
  shows
    "(let (key, env5) = Utf8Value b (arg info 0) env4;
          (validate, env6) = Utf8Value b (arg info 1) env5;
          (data, env7) = As_Buffer b (arg info 2) env6;
          (mutable_key, env8) = vla (length key) env7;
          (mutable_validate, env9) = vla (length validate) env8;
          (mutable_data, env10) = vla (Length data) env9;
          env11 = memcpy mutable_key key (length key) env10;
          env12 = memcpy mutable_validate validate (length validate) env11;
          env13 = memcpy mutable_data (deref (mem env12) (Data data)) (Length data) env12;
          (end_size, env14) =
            enctypex_wrapper eng mutable_key mutable_validate mutable_data
              (int_of_size_t (Length data)) env13
      in g end_size mutable_key mutable_validate mutable_data env14) =
     g r (length m) (Suc (length m)) (Suc (Suc (length m)))
       (env4\<lparr>stack_left := stack_left env4 -
               (length (key_bytes info) + length (validate_bytes info) +
                length (data_bytes m info)),
             mem := m @ [Some (key_bytes info), Some (validate_bytes info), Some d'],
             trace := trace env4 @
               marshalled (length m) (key_bytes info) (validate_bytes info)
                 (data_bytes m info)\<rparr>)"
proof -
  note k = Utf8Value_runs [OF assms(1) assms(3)]
  note v = Utf8Value_runs [OF assms(1) assms(4)]
  from assms(2,5) have "IsBuffer (mem env4) (arg info 2) \<or>
      (b = No_Cpp_Exceptions \<and> pending env4 \<noteq> None)"
    by simp
  note d = As_Buffer_runs [OF assms(1) this]
  from assms(7) have fit:
    "\<not> stack_left env4 < length (String_bytes (arg info 0))"
    "\<not> stack_left env4 - length (String_bytes (arg info 0))
         < length (String_bytes (arg info (Suc 0)))"
    "\<not> stack_left env4 -
         (length (String_bytes (arg info 0)) + length (String_bytes (arg info (Suc 0))))
         < length (Buffer_bytes m (arg info 2))"
    by (simp_all add: key_bytes_def validate_bytes_def data_bytes_def)
  show ?thesis
    using assms(1,2,6) fit
    by (simp add: k v [unfolded One_nat_def] d Let_def vla_def alloc_def memcpy_def
        enctypex_wrapper_def marshalled_def
        block_def key_bytes_def validate_bytes_def data_bytes_def engine_run_def
        split: prod.splits)
qed

lemma marshal_overflow:
  assumes "halted env4 = None" and "mem env4 = m"
    and "IsString (arg info 0) \<or> (b = No_Cpp_Exceptions \<and> pending env4 \<noteq> None)"
    and "IsString (arg info 1) \<or> (b = No_Cpp_Exceptions \<and> pending env4 \<noteq> None)"
    and "IsBuffer m (arg info 2) \<or> (b = No_Cpp_Exceptions \<and> pending env4 \<noteq> None)"
    and "stack_left env4
           < length (key_bytes info) + length (validate_bytes info) + length (data_bytes m info)"
  shows
    "(let (key, env5) = Utf8Value b (arg info 0) env4;
          (validate, env6) = Utf8Value b (arg info 1) env5;
          (data, env7) = As_Buffer b (arg info 2) env6;
          (mutable_key, env8) = vla (length key) env7;
          (mutable_validate, env9) = vla (length validate) env8;
          (mutable_data, env10) = vla (Length data) env9;
          env11 = memcpy mutable_key key (length key) env10;
          env12 = memcpy mutable_validate validate (length validate) env11;
          env13 = memcpy mutable_data (deref (mem env12) (Data data)) (Length data) env12;
          (end_size, env14) =
            enctypex_wrapper eng mutable_key mutable_validate mutable_data
              (int_of_size_t (Length data)) env13;
          locals = [mutable_data, mutable_validate, mutable_key]
      in if end_size = - 1 then (Value JSNull, leave locals env14)
         else (let (r, env15) = Copy b lim mutable_data (size_t_of_int end_size) env14
               in (r, leave locals env15))) =
     (Empty,
      env4\<lparr>mem := m @
              replicate (length (declared (stack_left env4) (length m) (key_bytes info)
                (validate_bytes info))) None,
            trace := trace env4 @
              declared (stack_left env4) (length m) (key_bytes info) (validate_bytes info),
            halted := Some Stack_Overflow,
            stack_left :=
              (if stack_left env4 < length (key_bytes info) then stack_left env4
               else if stack_left env4 < length (key_bytes info) + length (validate_bytes info)
                 then stack_left env4 - length (key_bytes info)
               else stack_left env4 -
                 (length (key_bytes info) + length (validate_bytes info)))\<rparr>)"
proof -
  note k = Utf8Value_runs [OF assms(1) assms(3)]
  note v = Utf8Value_runs [OF assms(1) assms(4)]
  from assms(2,5) have "IsBuffer (mem env4) (arg info 2) \<or>
      (b = No_Cpp_Exceptions \<and> pending env4 \<noteq> None)"
    by simp
  note d = As_Buffer_runs [OF assms(1) this]
  let ?k = "length (String_bytes (arg info 0))"
  let ?v = "length (String_bytes (arg info (Suc 0)))"
  let ?d = "length (Buffer_bytes m (arg info 2))"
  from assms(6) have over: "stack_left env4 < ?k + ?v + ?d"
    by (simp add: key_bytes_def validate_bytes_def data_bytes_def)
  consider (key) "stack_left env4 < ?k"
    | (validate) "\<not> stack_left env4 < ?k" "stack_left env4 - ?k < ?v"
    | (data) "\<not> stack_left env4 < ?k" "\<not> stack_left env4 - ?k < ?v"
        "stack_left env4 - (?k + ?v) < ?d"
    using over by linarith
  then show ?thesis
  proof cases
    case key
    then show ?thesis
      using assms(1,2)
      by (simp add: k v [unfolded One_nat_def] d Let_def vla_def halted_simps leave_def
          declared_def key_bytes_def validate_bytes_def)
  next
    case validate
    then have both: "stack_left env4 < ?k + ?v"
      by linarith
    from validate both show ?thesis
      using assms(1,2)
      by (simp add: k v [unfolded One_nat_def] d Let_def vla_def alloc_def halted_simps
          leave_def declared_def key_bytes_def validate_bytes_def)
  next
    case data
    then have both: "\<not> stack_left env4 < ?k + ?v"
      by linarith
    from data both show ?thesis
      using assms(1,2)
      by (simp add: k v [unfolded One_nat_def] d Let_def vla_def alloc_def halted_simps
          leave_def declared_def key_bytes_def validate_bytes_def)
  qed
qed


lemma violations_well_formed: "violations info m = [] \<longleftrightarrow> well_formed info m"
  by (auto simp: violations_def well_formed_def)

lemma hd_violations: "\<not> well_formed info m \<Longrightarrow> hd (violations info m) = first_violation info m"
  by (auto simp: violations_def well_formed_def first_violation_def)

lemma missing_data: "length info < 3 \<Longrightarrow> \<not> IsBuffer m (arg info 2)"
  by (simp add: arg_def IsBuffer_def)

lemma violations_typed:
  "violations info m = [] \<longleftrightarrow>
   IsString (arg info 0) \<and> IsString (arg info 1) \<and> IsBuffer m (arg info 2)"
  using missing_data [of info m] by (auto simp: violations_def)

lemma short_call_two_violations: "length info < 3 \<Longrightarrow> 2 \<le> length (violations info m)"
  using missing_data [of info m] by (simp add: violations_def)

lemma first_pending_violations:
  "violations info m \<noteq> [] \<Longrightarrow> first_pending (violations info m) = Some (hd (violations info m))"
  by (cases "violations info m") (simp_all add: first_pending_def)

lemma passes_typed:
  assumes "passes b info m" and "violations info m \<noteq> [] \<longrightarrow> pending env \<noteq> None"
  shows "IsString (arg info 0) \<or> (b = No_Cpp_Exceptions \<and> pending env \<noteq> None)"
    and "IsString (arg info 1) \<or> (b = No_Cpp_Exceptions \<and> pending env \<noteq> None)"
    and "IsBuffer m (arg info 2) \<or> (b = No_Cpp_Exceptions \<and> pending env \<noteq> None)"
  using assms by (cases "violations info m = []"; auto simp: passes_def violations_typed)+

lemma passes_short:
  assumes "passes b info m"
  shows "\<not> 2 \<le> length (violations info m)"
    and "take 2 (violations info m) = violations info m"
  using assms by (auto simp: passes_def)

lemma Decryptx_halts:
  assumes "2 \<le> length (violations info m)"
  shows "Decryptx b lim eng info
      \<lparr>mem = m, pending = None, trace = [], halted = None, stack_left = s\<rparr> =
    (Empty, \<lparr>mem = m, pending = first_pending (violations info m),
              trace = map Throw (take 2 (violations info m)), halted = Some (stop b),
              stack_left = s\<rparr>)"
  unfolding Decryptx_def
  apply (subst checks_run)
  apply (subst body_halted [where h = "stop b"])
   apply (simp add: assms)
  apply (simp add: assms)
  done

lemma Decryptx_unwinds:
  assumes "length (violations info m) = 1"
  shows "Decryptx Cpp_Exceptions lim eng info
      \<lparr>mem = m, pending = None, trace = [], halted = None, stack_left = s\<rparr> =
    (Empty, \<lparr>mem = m, pending = first_pending (violations info m),
              trace = map Throw (violations info m), halted = Some Unwinding,
              stack_left = s\<rparr>)"
proof -
  from assms have some: "violations info m \<noteq> []"
    by auto
  then have typed: "\<not> (IsString (arg info 0) \<and> IsString (arg info 1) \<and> IsBuffer m (arg info 2))"
    by (simp add: violations_typed)
  show ?thesis
    unfolding Decryptx_def
    apply (subst checks_run)
    apply (subst body_unwinds)
       apply (simp add: assms)
      apply (simp add: first_pending_violations [OF some])
    using typed apply auto[1]
    apply (simp add: assms)
    done
qed

lemma Decryptx_run:
  assumes "reaches_engine b lim info m" and "engine_run eng info m = (r, d')"
  shows "Decryptx b lim eng info
      \<lparr>mem = m, pending = None, trace = [], halted = None, stack_left = stack_size lim\<rparr> =
    (let n = length m;
         env14 = \<lparr>mem = m @ [Some (key_bytes info), Some (validate_bytes info), Some d'],
                  pending = first_pending (violations info m),
                  trace = map Throw (violations info m) @
                    marshalled n (key_bytes info) (validate_bytes info) (data_bytes m info),
                  halted = None,
                  stack_left = stack_size lim -
                    (length (key_bytes info) + length (validate_bytes info) +
                     length (data_bytes m info))\<rparr>;
         locals = [Suc (Suc n), Suc n, n]
     in if r = - 1 then (Value JSNull, leave locals env14)
        else (let (res, env15) = Copy b lim (Suc (Suc n)) (size_t_of_int r) env14
              in (res, leave locals env15)))"
proof -
  from assms(1) have pass: "passes b info m" and fit: "on_stack lim info m"
    by (simp_all add: reaches_engine_def)
  note short = passes_short [OF pass]
  let ?env4 = "\<lparr>mem = m, pending = first_pending (violations info m),
      trace = map Throw (take 2 (violations info m)),
      halted = (if 2 \<le> length (violations info m) then Some (stop b) else None),
      stack_left = stack_size lim\<rparr>"
  have "violations info m \<noteq> [] \<longrightarrow> pending ?env4 \<noteq> None"
    by (simp add: first_pending_violations)
  note typed = passes_typed [OF pass this]
  show ?thesis
    unfolding Decryptx_def
    apply (subst checks_run)
    apply (subst marshal_run [where m = m and r = r and d' = d'])
           apply (simp add: short)
          apply simp
         apply (rule typed)
        apply (rule typed)
       apply (rule typed)
      apply (rule assms(2))
    using fit apply (simp add: on_stack_def)
    apply (simp add: Let_def short)
    done
qed

lemma Decryptx_overflows:
  assumes "passes b info m" and "\<not> on_stack lim info m"
  shows "Decryptx b lim eng info
      \<lparr>mem = m, pending = None, trace = [], halted = None, stack_left = stack_size lim\<rparr> =
    (Empty,
     \<lparr>mem = m @
        replicate (length (declared (stack_size lim) (length m) (key_bytes info)
          (validate_bytes info))) None,
      pending = first_pending (violations info m),
      trace = map Throw (violations info m) @
        declared (stack_size lim) (length m) (key_bytes info) (validate_bytes info),
      halted = Some Stack_Overflow,
      stack_left =
        (if stack_size lim < length (key_bytes info) then stack_size lim
         else if stack_size lim < length (key_bytes info) + length (validate_bytes info)
           then stack_size lim - length (key_bytes info)
         else stack_size lim - (length (key_bytes info) + length (validate_bytes info)))\<rparr>)"
proof -
  note short = passes_short [OF assms(1)]
  let ?env4 = "\<lparr>mem = m, pending = first_pending (violations info m),
      trace = map Throw (take 2 (violations info m)),
      halted = (if 2 \<le> length (violations info m) then Some (stop b) else None),
      stack_left = stack_size lim\<rparr>"
  have "violations info m \<noteq> [] \<longrightarrow> pending ?env4 \<noteq> None"
    by (simp add: first_pending_violations)
  note typed = passes_typed [OF assms(1) this]
  show ?thesis
    unfolding Decryptx_def
    apply (subst checks_run)
    apply (subst marshal_overflow [where m = m])
          apply (simp add: short)
         apply simp
        apply (rule typed)
       apply (rule typed)
      apply (rule typed)
    using assms(2) apply (simp add: on_stack_def)
    apply (simp add: short)
    done
qed


section \<open>The result of a call\<close>

text \<open>A call stops at its checks, or runs out of stack, or reaches the engine.\<close>

lemma call_cases:
  obtains (stops) "\<not> passes b info m"
    | (overflows) "passes b info m" "\<not> on_stack lim info m"
    | (reaches) "reaches_engine b lim info m"
  by (auto simp: reaches_engine_def)

lemma not_passing:
  assumes "\<not> passes b info m"
  shows "violations info m \<noteq> []"
    and "2 \<le> length (violations info m) \<or>
         (b = Cpp_Exceptions \<and> length (violations info m) = 1)"
proof -
  from assms show some: "violations info m \<noteq> []"
    by (auto simp: passes_def)
  then have "1 \<le> length (violations info m)"
    by (cases "violations info m") simp_all
  with assms show "2 \<le> length (violations info m) \<or>
      (b = Cpp_Exceptions \<and> length (violations info m) = 1)"
    by (cases b) (auto simp: passes_def)
qed

lemma decryptx_stops:
  assumes "\<not> passes b info m"
  shows "decryptx b lim eng info m =
    ((case b of Cpp_Exceptions \<Rightarrow> Thrown (hd (violations info m))
              | No_Cpp_Exceptions \<Rightarrow> Process_Aborted),
     \<lparr>mem = m, pending = Some (hd (violations info m)),
        trace = map Throw (take 2 (violations info m)), halted = Some (stop b),
        stack_left = stack_size lim\<rparr>)"
proof -
  note some = not_passing(1) [OF assms]
  note pend = first_pending_violations [OF some]
  from not_passing(2) [OF assms] show ?thesis
  proof
    assume two: "2 \<le> length (violations info m)"
    show ?thesis
      by (cases b) (simp_all add: decryptx_def Decryptx_halts [OF two] pend stop_def)
  next
    assume one: "b = Cpp_Exceptions \<and> length (violations info m) = 1"
    then have b: "b = Cpp_Exceptions" and len: "length (violations info m) = 1"
      by simp_all
    show ?thesis
      by (simp add: b decryptx_def Decryptx_unwinds [OF len] pend stop_def len)
  qed
qed

lemma decryptx_overflows:
  assumes "passes b info m" and "\<not> on_stack lim info m"
  shows "fst (decryptx b lim eng info m) = Process_Crashed"
    and "mem (snd (decryptx b lim eng info m)) =
      m @ replicate (length (declared (stack_size lim) (length m) (key_bytes info)
        (validate_bytes info))) None"
    and "pending (snd (decryptx b lim eng info m)) = first_pending (violations info m)"
    and "trace (snd (decryptx b lim eng info m)) =
      map Throw (violations info m) @
      declared (stack_size lim) (length m) (key_bytes info) (validate_bytes info)"
    and "halted (snd (decryptx b lim eng info m)) = Some Stack_Overflow"
  by (simp_all add: decryptx_def Decryptx_overflows [OF assms])

lemma decryptx_absent:
  assumes "reaches_engine b lim info m" and "engine_run eng info m = (- 1, d')"
  shows "decryptx b lim eng info m =
    ((case violations info m of [] \<Rightarrow> Returned JSNull | msg # _ \<Rightarrow> Thrown msg),
     \<lparr>mem = m @ [None, None, None], pending = first_pending (violations info m),
        trace = map Throw (violations info m) @
          marshalled (length m) (key_bytes info) (validate_bytes info) (data_bytes m info),
        halted = None,
        stack_left = stack_size lim -
          (length (key_bytes info) + length (validate_bytes info) +
           length (data_bytes m info))\<rparr>)"
  by (simp add: decryptx_def Decryptx_run [OF assms] Let_def leave_def first_pending_def
      split: list.splits)

lemma decryptx_invalid:
  assumes "reaches_engine b lim info m" and "engine_run eng info m = (r, d')"
    and "r \<noteq> - 1" and "violations info m \<noteq> []"
  shows "decryptx b lim eng info m =
    (Thrown (hd (violations info m)),
     \<lparr>mem = m @ [None, None, None], pending = Some (hd (violations info m)),
        trace = map Throw (violations info m) @
          marshalled (length m) (key_bytes info) (validate_bytes info) (data_bytes m info) @
          [Buffer_Copy (Suc (Suc (length m))) (size_t_of_int r)],
        halted = None,
        stack_left = stack_size lim -
          (length (key_bytes info) + length (validate_bytes info) +
           length (data_bytes m info))\<rparr>)"
proof -
  from assms(1,4) have b: "b = No_Cpp_Exceptions"
    by (simp add: reaches_engine_def passes_def)
  from assms(3,4) show ?thesis
    by (simp add: b decryptx_def Decryptx_run [OF assms(1,2), unfolded b] Let_def leave_def
        Copy_def napi_failed_def first_pending_def split: list.splits)
qed

lemma decryptx_refused:
  assumes "reaches_engine b lim info m" and "engine_run eng info m = (r, d')"
    and "r \<noteq> - 1" and "violations info m = []" and "kMaxLength lim < size_t_of_int r"
  shows "decryptx b lim eng info m =
    (Thrown ''ERR_BUFFER_TOO_LARGE'',
     \<lparr>mem = m @ [None, None, None], pending = Some ''ERR_BUFFER_TOO_LARGE'',
        trace =
          marshalled (length m) (key_bytes info) (validate_bytes info) (data_bytes m info) @
          [Buffer_Copy (Suc (Suc (length m))) (size_t_of_int r)],
        halted = (case b of Cpp_Exceptions \<Rightarrow> Some Unwinding | No_Cpp_Exceptions \<Rightarrow> None),
        stack_left = stack_size lim -
          (length (key_bytes info) + length (validate_bytes info) +
           length (data_bytes m info))\<rparr>)"
proof (cases b)
  case Cpp_Exceptions
  from assms(3,4,5) show ?thesis
    by (simp add: Cpp_Exceptions decryptx_def
        Decryptx_run [OF assms(1,2), unfolded Cpp_Exceptions] Let_def leave_def Copy_def
        napi_failed_def first_pending_def)
next
  case No_Cpp_Exceptions
  from assms(3,4,5) show ?thesis
    by (simp add: No_Cpp_Exceptions decryptx_def
        Decryptx_run [OF assms(1,2), unfolded No_Cpp_Exceptions] Let_def leave_def Copy_def
        napi_failed_def first_pending_def)
qed

lemma decryptx_overrun:
  assumes "reaches_engine b lim info m" and "engine_run eng info m = (r, d')"
    and "r \<noteq> - 1" and "violations info m = []" and "size_t_of_int r \<le> kMaxLength lim"
    and "length d' < size_t_of_int r"
  shows "decryptx b lim eng info m =
    (Out_Of_Bounds,
     \<lparr>mem = m @ [None, None, None], pending = None,
        trace =
          marshalled (length m) (key_bytes info) (validate_bytes info) (data_bytes m info) @
          [Buffer_Copy (Suc (Suc (length m))) (size_t_of_int r)],
        halted = None,
        stack_left = stack_size lim -
          (length (key_bytes info) + length (validate_bytes info) +
           length (data_bytes m info))\<rparr>)"
  using assms(3,4,5,6)
  by (simp add: decryptx_def Decryptx_run [OF assms(1,2)] Let_def leave_def Copy_def
      first_pending_def block_def)

lemma decryptx_buffer:
  assumes "reaches_engine b lim info m" and "engine_run eng info m = (r, d')"
    and "r \<noteq> - 1" and "violations info m = []" and "size_t_of_int r \<le> kMaxLength lim"
    and "size_t_of_int r \<le> length d'"
  shows "decryptx b lim eng info m =
    (Returned (JSBuffer (Suc (Suc (Suc (length m))))),
     \<lparr>mem = m @ [None, None, None, Some (take (size_t_of_int r) d')], pending = None,
        trace =
          marshalled (length m) (key_bytes info) (validate_bytes info) (data_bytes m info) @
          [Buffer_Copy (Suc (Suc (length m))) (size_t_of_int r)],
        halted = None,
        stack_left = stack_size lim -
          (length (key_bytes info) + length (validate_bytes info) +
           length (data_bytes m info))\<rparr>)"
  using assms(3,4,5,6)
  by (simp add: decryptx_def Decryptx_run [OF assms(1,2)] Let_def leave_def Copy_def
      first_pending_def block_def alloc_def)

lemma run_cases:
  assumes "engine_run eng info m = (r, d')"
  obtains (absent) "r = - 1"
    | (invalid) "r \<noteq> - 1" "violations info m \<noteq> []"
    | (refused) "r \<noteq> - 1" "violations info m = []" "kMaxLength lim < size_t_of_int r"
    | (overrun) "r \<noteq> - 1" "violations info m = []" "size_t_of_int r \<le> kMaxLength lim"
        "length d' < size_t_of_int r"
    | (buffer) "r \<noteq> - 1" "violations info m = []" "size_t_of_int r \<le> kMaxLength lim"
        "size_t_of_int r \<le> length d'"
  by (cases "r = - 1"; cases "violations info m = []";
      cases "size_t_of_int r \<le> kMaxLength lim"; cases "size_t_of_int r \<le> length d'")
    auto

lemma run_trace:
  assumes "reaches_engine b lim info m" and "engine_run eng info m = (r, d')"
  shows "trace (snd (decryptx b lim eng info m)) =
     map Throw (violations info m) @
     marshalled (length m) (key_bytes info) (validate_bytes info) (data_bytes m info) @
     (if r = - 1 then [] else [Buffer_Copy (Suc (Suc (length m))) (size_t_of_int r)])"
  using assms(2)
proof (cases rule: run_cases [where lim = lim])
  case absent
  with assms show ?thesis by (simp add: decryptx_absent)
next
  case invalid
  with assms show ?thesis by (simp add: decryptx_invalid)
next
  case refused
  with assms show ?thesis by (simp add: decryptx_refused)
next
  case overrun
  with assms show ?thesis by (simp add: decryptx_overrun)
next
  case buffer
  with assms show ?thesis by (simp add: decryptx_buffer)
qed

lemma run_mem:
  assumes "reaches_engine b lim info m" and "engine_run eng info m = (r, d')"
  shows "mem (snd (decryptx b lim eng info m)) =
     m @ [None, None, None] @
     (if r \<noteq> - 1 \<and> violations info m = [] \<and> size_t_of_int r \<le> kMaxLength lim \<and>
         size_t_of_int r \<le> length d'
      then [Some (take (size_t_of_int r) d')] else [])"
  using assms(2)
proof (cases rule: run_cases [where lim = lim])
  case absent
  with assms show ?thesis by (simp add: decryptx_absent)
next
  case invalid
  with assms show ?thesis by (simp add: decryptx_invalid)
next
  case refused
  with assms show ?thesis by (simp add: decryptx_refused)
next
  case overrun
  with assms show ?thesis by (simp add: decryptx_overrun)
next
  case buffer
  with assms show ?thesis by (simp add: decryptx_buffer)
qed

lemma run_outcome:
  assumes "reaches_engine b lim info m" and "engine_run eng info m = (r, d')"
  shows "fst (decryptx b lim eng info m) =
     (if violations info m \<noteq> [] then Thrown (hd (violations info m))
      else if r = - 1 then Returned JSNull
      else if kMaxLength lim < size_t_of_int r then Thrown ''ERR_BUFFER_TOO_LARGE''
      else if size_t_of_int r \<le> length d'
        then Returned (JSBuffer (Suc (Suc (Suc (length m)))))
      else Out_Of_Bounds)"
  using assms(2)
proof (cases rule: run_cases [where lim = lim])
  case absent
  with assms show ?thesis
    by (cases "violations info m") (simp_all add: decryptx_absent)
next
  case invalid
  with assms show ?thesis by (simp add: decryptx_invalid)
next
  case refused
  with assms show ?thesis by (simp add: decryptx_refused)
next
  case overrun
  with assms show ?thesis by (simp add: decryptx_overrun)
next
  case buffer
  with assms show ?thesis by (simp add: decryptx_buffer)
qed

lemma run_pending:
  assumes "reaches_engine b lim info m" and "engine_run eng info m = (r, d')"
  shows "pending (snd (decryptx b lim eng info m)) =
     (if violations info m = [] \<and> r \<noteq> - 1 \<and> kMaxLength lim < size_t_of_int r
      then Some ''ERR_BUFFER_TOO_LARGE'' else first_pending (violations info m))"
  using assms(2)
proof (cases rule: run_cases [where lim = lim])
  case absent
  with assms show ?thesis by (simp add: decryptx_absent)
next
  case invalid
  with assms show ?thesis
    by (simp add: decryptx_invalid first_pending_violations)
next
  case refused
  with assms show ?thesis by (simp add: decryptx_refused)
next
  case overrun
  with assms show ?thesis by (simp add: decryptx_overrun first_pending_def)
next
  case buffer
  with assms show ?thesis by (simp add: decryptx_buffer first_pending_def)
qed

lemma well_formed_reaches:
  "well_formed info m \<Longrightarrow> on_stack lim info m \<Longrightarrow> reaches_engine b lim info m"
  by (simp add: reaches_engine_def passes_def violations_well_formed)

lemma well_formed_passes: "well_formed info m \<Longrightarrow> passes b info m"
  by (simp add: passes_def violations_well_formed)

lemma caller_blocks_kept:
  "a < length m \<Longrightarrow> load (mem (snd (decryptx b lim eng info m))) a = load m a"
proof -
  assume old: "a < length m"
  obtain r d' where run: "engine_run eng info m = (r, d')"
    by (cases "engine_run eng info m")
  show ?thesis
  proof (cases rule: call_cases [where b = b and info = info and m = m and lim = lim])
    case stops
    then show ?thesis
      by (simp add: decryptx_stops)
  next
    case overflows
    from old show ?thesis
      by (simp only: decryptx_overflows(2) [OF overflows] load_old)
  next
    case reaches
    with old show ?thesis
      by (simp only: run_mem [OF reaches run] load_old)
  qed
qed

lemma in_contract_run:
  assumes "in_contract eng info m" "engine_run eng info m = (r, d')"
  shows "length d' = length (data_bytes m info)"
    and "r = - 1 \<or> (0 \<le> sint r \<and> sint r \<le> sint (int_of_size_t (length (data_bytes m info))))"
  using assms by (simp_all add: in_contract_def engine_contract_def engine_run_def)

lemma in_contract_fits:
  assumes "in_contract eng info m" "engine_run eng info m = (r, d')" "r \<noteq> - 1"
  shows "size_t_of_int r \<le> length d'" and "size_t_of_int r = nat (sint r)"
proof -
  from in_contract_run [OF assms(1,2)] assms(3)
  have len: "length d' = length (data_bytes m info)"
    and lo: "0 \<le> sint r"
    and hi: "sint r \<le> sint (int_of_size_t (length (data_bytes m info)))"
    by simp_all
  from within_length [OF lo hi] len show "size_t_of_int r \<le> length d'"
    by simp
  from lo show "size_t_of_int r = nat (sint r)"
    by (rule size_t_of_int_nonneg)
qed

lemma in_contract_allowed:
  assumes "in_contract eng info m" "engine_run eng info m = (r, d')" "r \<noteq> - 1"
    and "data_allowed lim info m"
  shows "size_t_of_int r \<le> kMaxLength lim"
  using in_contract_fits(1) [OF assms(1,2,3)] in_contract_run(1) [OF assms(1,2)] assms(4)
  by (simp add: data_allowed_def)

section \<open>Properties of decryptx\<close>

text \<open>The definitions a concrete run unfolds.\<close>

lemmas eval_defs =
  well_formed_def first_violation_def violations_def arg_def IsString_def IsBuffer_def
  key_bytes_def validate_bytes_def data_bytes_def Buffer_bytes_def block_def
  String_bytes_def utf8_unit_def utf8_encode_def high_surrogate_def low_surrogate_def
  engine_run_def int_of_size_t_def sample_engine_def

lemma default_limits_simps [simp]:
  "stack_size default_limits = 8388608" "kMaxLength default_limits = 4294967296"
  by (simp_all add: default_limits_def)

lemma large_stack_simps [simp]:
  "stack_size large_stack = 4294967296" "kMaxLength large_stack = 4294967296"
  by (simp_all add: large_stack_def)

lemma load_released: "load (m @ replicate j None) p = load m p"
  by (simp add: load_def nth_append)

subsection \<open>Calls that fail a check\<close>

text \<open>
  \<^verbatim>\<open>Decryptx\<close> has no \<^verbatim>\<open>return\<close> after its calls of \<^verbatim>\<open>error\<close>, so what a call that
  fails a check does after the first \<^verbatim>\<open>error\<close> is left to node-addon-api. In every
  build the first step of such a call is the \<^verbatim>\<open>error\<close> of the first check it fails, and
  the caller never gets a value.
\<close>

lemma invalid_call_first_step:
  assumes "\<not> well_formed info m"
  shows "\<exists>rest. trace (snd (decryptx b lim eng info m)) = Throw (first_violation info m) # rest"
proof -
  obtain r d' where run: "engine_run eng info m = (r, d')"
    by (cases "engine_run eng info m")
  from assms have viol: "violations info m \<noteq> []"
    by (simp add: violations_well_formed)
  then obtain rest where split: "violations info m = first_violation info m # rest"
    using hd_violations [OF assms] by (cases "violations info m") auto
  show ?thesis
  proof (cases rule: call_cases [where b = b and info = info and m = m and lim = lim])
    case stops
    then show ?thesis
      by (simp add: decryptx_stops split)
  next
    case overflows
    then show ?thesis
      by (simp add: decryptx_overflows(4) split)
  next
    case reaches
    then show ?thesis
      by (simp add: run_trace [OF reaches run] split)
  qed
qed

lemma invalid_call_no_value:
  assumes "\<not> well_formed info m"
  shows "fst (decryptx b lim eng info m) = Thrown (first_violation info m) \<or>
         fst (decryptx b lim eng info m) = Process_Aborted \<or>
         fst (decryptx b lim eng info m) = Process_Crashed"
proof -
  obtain r d' where run: "engine_run eng info m = (r, d')"
    by (cases "engine_run eng info m")
  from assms have viol: "violations info m \<noteq> []"
    by (simp add: violations_well_formed)
  show ?thesis
  proof (cases rule: call_cases [where b = b and info = info and m = m and lim = lim])
    case stops
    then show ?thesis
      using hd_violations [OF assms] by (cases b) (simp_all add: decryptx_stops)
  next
    case overflows
    then show ?thesis
      by (simp add: decryptx_overflows(1))
  next
    case reaches
    then show ?thesis
      using viol hd_violations [OF assms] by (simp add: run_outcome [OF reaches run])
  qed
qed

text \<open>
  Built with C++ exceptions, the second \<^verbatim>\<open>error\<close> or the first conversion of an
  argument of the wrong kind leaves the function: the caller gets the TypeError of the
  first failed check, and no array is declared, no byte copied, the engine not called.
\<close>

lemma invalid_call_with_cpp_exceptions:
  assumes "\<not> well_formed info m"
  shows "fst (decryptx Cpp_Exceptions lim eng info m) = Thrown (first_violation info m)"
    and "trace (snd (decryptx Cpp_Exceptions lim eng info m)) = map Throw (take 2 (violations info m))"
    and "mem (snd (decryptx Cpp_Exceptions lim eng info m)) = m"
proof -
  from assms have "\<not> passes Cpp_Exceptions info m"
    by (simp add: passes_def violations_well_formed)
  then show "fst (decryptx Cpp_Exceptions lim eng info m) = Thrown (first_violation info m)"
    and "trace (snd (decryptx Cpp_Exceptions lim eng info m)) = map Throw (take 2 (violations info m))"
    and "mem (snd (decryptx Cpp_Exceptions lim eng info m)) = m"
    using hd_violations [OF assms] by (simp_all add: decryptx_stops)
qed

text \<open>
  Built without C++ exceptions, a call that fails exactly one check gets its TypeError,
  but only after the arrays were declared and filled and the engine was called on them,
  with the defaults of the failed conversion.
\<close>

lemma one_violation_reaches_engine:
  assumes "length (violations info m) = 1" and "on_stack lim info m"
  shows "fst (decryptx No_Cpp_Exceptions lim eng info m) = Thrown (first_violation info m)"
    and "Engine_Call (length m) (Suc (length m)) (Suc (Suc (length m)))
           (key_bytes info) (validate_bytes info) (data_bytes m info)
           (int_of_size_t (length (data_bytes m info)))
         \<in> set (trace (snd (decryptx No_Cpp_Exceptions lim eng info m)))"
proof -
  obtain r d' where run: "engine_run eng info m = (r, d')"
    by (cases "engine_run eng info m")
  from assms have reach: "reaches_engine No_Cpp_Exceptions lim info m"
    by (simp add: reaches_engine_def passes_def)
  from assms(1) have viol: "violations info m \<noteq> []"
    by auto
  then have bad: "\<not> well_formed info m"
    by (simp add: violations_well_formed)
  show "fst (decryptx No_Cpp_Exceptions lim eng info m) = Thrown (first_violation info m)"
    using viol hd_violations [OF bad] by (simp add: run_outcome [OF reach run])
  show "Engine_Call (length m) (Suc (length m)) (Suc (Suc (length m)))
      (key_bytes info) (validate_bytes info) (data_bytes m info)
      (int_of_size_t (length (data_bytes m info)))
    \<in> set (trace (snd (decryptx No_Cpp_Exceptions lim eng info m)))"
    by (simp add: run_trace [OF reach run] marshalled_def)
qed

text \<open>
  Built without C++ exceptions, a call that fails two checks reaches the second
  \<^verbatim>\<open>error\<close> with the first exception pending, and the process is ended there. Every
  call with fewer than three arguments is such a call: its third argument is
  \<open>undefined\<close>, which is not a Buffer.
\<close>

lemma short_call_aborts:
  assumes "length info < 3"
  shows "fst (decryptx No_Cpp_Exceptions lim eng info m) = Process_Aborted"
proof -
  from short_call_two_violations [OF assms, of m]
  have "\<not> passes No_Cpp_Exceptions info m"
    by (auto simp: passes_def)
  then show ?thesis
    by (simp add: decryptx_stops)
qed

text \<open>
  In either build, a call that gets past the checks with arrays that do not fit in the
  stack ends the process before the engine is called.
\<close>

lemma stack_overflow_crashes:
  assumes "passes b info m" and "\<not> on_stack lim info m"
  shows "fst (decryptx b lim eng info m) = Process_Crashed"
    and "Engine_Call a1 a2 a3 k v d n \<notin> set (trace (snd (decryptx b lim eng info m)))"
  by (auto simp: decryptx_overflows [OF assms] declared_def)

text \<open>
  C1. The claim: a call that violates a precondition fails with the invalid-argument
  failure of that precondition, signalled before any allocation, copy or engine call, and
  produces no result. The code, built without C++ exceptions, at two calls. With no
  arguments, the check of the argument count calls \<^verbatim>\<open>error\<close>, the check of the key
  calls it again, and the process is ended; no TypeError reaches the caller. With a
  number for the data, the last check calls \<^verbatim>\<open>error\<close> and the function goes on: the
  three arrays are declared, the key and the validate string copied, and the engine called
  on an empty data array, before the caller gets the TypeError.
\<close>

theorem invalid_calls_not_stopped:
  "fst (decryptx No_Cpp_Exceptions default_limits sample_engine [] [Some [1, 2, 3]]) =
     Process_Aborted \<and>
   trace (snd (decryptx No_Cpp_Exceptions default_limits sample_engine [] [Some [1, 2, 3]])) =
     [Throw ''Expected 3 arguments'', Throw ''Expected key to be a string''] \<and>
   fst (decryptx No_Cpp_Exceptions default_limits sample_engine
          [JSString [0x6B], JSString [0x76], JSNumber 5] [Some [1, 2, 3]]) =
     Thrown ''Expected data to be a Buffer'' \<and>
   trace (snd (decryptx No_Cpp_Exceptions default_limits sample_engine
          [JSString [0x6B], JSString [0x76], JSNumber 5] [Some [1, 2, 3]])) =
     [Throw ''Expected data to be a Buffer'',
      Alloc 1 1, Alloc 2 1, Alloc 3 0, Memcpy 1 [0x6B], Memcpy 2 [0x76], Memcpy 3 [],
      Engine_Call 1 2 3 [0x6B] [0x76] [] 0]"
proof -
  let ?m = "[Some [1, 2, 3]] :: memory"
  let ?bad = "[JSString [0x6B], JSString [0x76], JSNumber 5]"
  have viol: "violations [] ?m =
      [''Expected 3 arguments'', ''Expected key to be a string'',
       ''Expected validate to be a string'', ''Expected data to be a Buffer'']"
    by (simp add: eval_defs)
  then have stops: "\<not> passes No_Cpp_Exceptions [] ?m"
    by (simp add: passes_def)
  have one: "violations ?bad ?m = [''Expected data to be a Buffer'']"
    by (simp add: eval_defs)
  have fit: "on_stack default_limits ?bad ?m"
    by (simp add: on_stack_def eval_defs)
  from one fit have reach: "reaches_engine No_Cpp_Exceptions default_limits ?bad ?m"
    by (simp add: reaches_engine_def passes_def)
  have run: "engine_run sample_engine ?bad ?m = (- 1, [])"
    by (simp add: eval_defs)
  have bytes: "key_bytes ?bad = [0x6B]" "validate_bytes ?bad = [0x76]"
    "data_bytes ?m ?bad = []"
    by (simp_all add: eval_defs)
  have first: "fst (decryptx No_Cpp_Exceptions default_limits sample_engine [] ?m) =
      Process_Aborted"
    using stops by (simp add: decryptx_stops)
  have first_trace:
    "trace (snd (decryptx No_Cpp_Exceptions default_limits sample_engine [] ?m)) =
      [Throw ''Expected 3 arguments'', Throw ''Expected key to be a string'']"
    using stops by (simp add: decryptx_stops viol)
  have second: "fst (decryptx No_Cpp_Exceptions default_limits sample_engine ?bad ?m) =
      Thrown ''Expected data to be a Buffer''"
    by (simp add: run_outcome [OF reach run] one)
  have second_trace:
    "trace (snd (decryptx No_Cpp_Exceptions default_limits sample_engine ?bad ?m)) =
     [Throw ''Expected data to be a Buffer'',
      Alloc 1 1, Alloc 2 1, Alloc 3 0, Memcpy 1 [0x6B], Memcpy 2 [0x76], Memcpy 3 [],
      Engine_Call 1 2 3 [0x6B] [0x76] [] 0]"
    by (simp add: run_trace [OF reach run] one bytes marshalled_def int_of_size_t_def
        eval_defs)
  from first first_trace second second_trace show ?thesis
    by (simp only: simp_thms)
qed

subsection \<open>Well-formed calls\<close>

lemma nothing_new:
  assumes "reaches_engine b lim info m" and "engine_run eng info m = (r, d')"
    and "r = - 1 \<or> violations info m \<noteq> [] \<or> length d' < size_t_of_int r"
    and "length m \<le> p"
  shows "load (mem (snd (decryptx b lim eng info m))) p = None"
proof -
  from assms(4) obtain k where p: "p = length m + k"
    using le_Suc_ex by blast
  have "mem (snd (decryptx b lim eng info m)) = m @ [None, None, None]"
    using assms(3) by (auto simp: run_mem [OF assms(1,2)])
  then show ?thesis
    unfolding p by (simp add: load_new load_def nth_Cons split: nat.splits)
qed

text \<open>
  C3. On a well-formed call in which the engine is reached and returns \<open>-1\<close>, the caller
  gets \<^verbatim>\<open>null\<close>: nothing is thrown, \<^verbatim>\<open>Buffer::Copy\<close> is not called, and no block
  exists after the call that did not exist before it. The engine is reached when the three
  arrays fit in the stack.
\<close>

theorem engine_failure_gives_null:
  assumes "well_formed info m" and "on_stack lim info m"
    and "engine_run eng info m = (- 1, d')"
  shows "fst (decryptx b lim eng info m) = Returned JSNull \<and>
         pending (snd (decryptx b lim eng info m)) = None \<and>
         (\<forall>a n. Buffer_Copy a n \<notin> set (trace (snd (decryptx b lim eng info m)))) \<and>
         (\<forall>p. length m \<le> p \<longrightarrow> load (mem (snd (decryptx b lim eng info m))) p = None)"
proof -
  note reach = well_formed_reaches [OF assms(1,2), of b]
  from assms(1) have ok: "violations info m = []"
    by (simp add: violations_well_formed)
  have "fst (decryptx b lim eng info m) = Returned JSNull"
    by (simp add: run_outcome [OF reach assms(3)] ok)
  moreover have "pending (snd (decryptx b lim eng info m)) = None"
    by (simp add: run_pending [OF reach assms(3)] ok first_pending_def)
  moreover have "\<forall>a n. Buffer_Copy a n \<notin> set (trace (snd (decryptx b lim eng info m)))"
    by (auto simp: run_trace [OF reach assms(3)] ok marshalled_def)
  moreover have "\<forall>p. length m \<le> p \<longrightarrow>
      load (mem (snd (decryptx b lim eng info m))) p = None"
    using nothing_new [OF reach assms(3)] by simp
  ultimately show ?thesis
    by blast
qed

text \<open>The stand-in engine fails on the empty key.\<close>

theorem engine_failure_gives_null_witness:
  "well_formed [JSString [], JSString [0x76], JSBuffer 0] [Some [1, 2, 3]] \<and>
   on_stack default_limits [JSString [], JSString [0x76], JSBuffer 0] [Some [1, 2, 3]] \<and>
   engine_run sample_engine [JSString [], JSString [0x76], JSBuffer 0] [Some [1, 2, 3]] =
     (- 1, [1, 2, 3]) \<and>
   fst (decryptx No_Cpp_Exceptions default_limits sample_engine
     [JSString [], JSString [0x76], JSBuffer 0] [Some [1, 2, 3]]) = Returned JSNull \<and>
   pending (snd (decryptx No_Cpp_Exceptions default_limits sample_engine
     [JSString [], JSString [0x76], JSBuffer 0] [Some [1, 2, 3]])) = None"
proof -
  have wf: "well_formed [JSString [], JSString [0x76], JSBuffer 0] [Some [1, 2, 3]]"
    by (simp add: eval_defs)
  have fit: "on_stack default_limits [JSString [], JSString [0x76], JSBuffer 0]
      [Some [1, 2, 3]]"
    by (simp add: on_stack_def eval_defs)
  have run: "engine_run sample_engine [JSString [], JSString [0x76], JSBuffer 0]
      [Some [1, 2, 3]] = (- 1, [1, 2, 3])"
    by (simp add: eval_defs)
  from engine_failure_gives_null [OF wf fit run, of No_Cpp_Exceptions] wf fit run
  show ?thesis
    by simp
qed

text \<open>
  C4. The claim, for every well-formed call: three arrays of the byte lengths of key,
  validate and data are declared, the bytes of the inputs copied into them, and the engine
  called with the three arrays and the byte length of data.

  The code does so when the three arrays fit in the stack and data has less than \<open>2^31\<close>
  bytes. Then the run consists of exactly these steps, followed by \<^verbatim>\<open>Buffer::Copy\<close> unless
  the engine returned \<open>-1\<close>; the length that goes through the parameter \<^verbatim>\<open>int size\<close> is the
  byte length of data; and what the caller gets is decided by the answer of the engine on
  these bytes and this length: \<^verbatim>\<open>null\<close> for \<open>-1\<close>, else a Buffer with the first bytes the
  engine left in the data array.
\<close>

theorem inputs_marshalled_for_engine:
  assumes "well_formed info m" and "on_stack lim info m"
    and "length (data_bytes m info) < 2 ^ 31"
    and "eng (key_bytes info) (validate_bytes info) (data_bytes m info)
           (int_of_size_t (length (data_bytes m info))) = (r, d')"
  shows "trace (snd (decryptx b lim eng info m)) =
           [Alloc (length m) (length (key_bytes info)),
            Alloc (Suc (length m)) (length (validate_bytes info)),
            Alloc (Suc (Suc (length m))) (length (data_bytes m info)),
            Memcpy (length m) (key_bytes info),
            Memcpy (Suc (length m)) (validate_bytes info),
            Memcpy (Suc (Suc (length m))) (data_bytes m info),
            Engine_Call (length m) (Suc (length m)) (Suc (Suc (length m)))
              (key_bytes info) (validate_bytes info) (data_bytes m info)
              (int_of_size_t (length (data_bytes m info)))] @
           (if r = - 1 then [] else [Buffer_Copy (Suc (Suc (length m))) (size_t_of_int r)]) \<and>
         sint (int_of_size_t (length (data_bytes m info))) = int (length (data_bytes m info)) \<and>
         fst (decryptx b lim eng info m) =
           (if r = - 1 then Returned JSNull
            else if kMaxLength lim < size_t_of_int r then Thrown ''ERR_BUFFER_TOO_LARGE''
            else if size_t_of_int r \<le> length d'
              then Returned (JSBuffer (Suc (Suc (Suc (length m)))))
            else Out_Of_Bounds) \<and>
         mem (snd (decryptx b lim eng info m)) =
           m @ [None, None, None] @
           (if r \<noteq> - 1 \<and> size_t_of_int r \<le> kMaxLength lim \<and> size_t_of_int r \<le> length d'
            then [Some (take (size_t_of_int r) d')] else [])"
proof -
  from assms(4) have run: "engine_run eng info m = (r, d')"
    by (simp add: engine_run_def)
  note reach = well_formed_reaches [OF assms(1,2), of b]
  from assms(1) have ok: "violations info m = []"
    by (simp add: violations_well_formed)
  have steps: "trace (snd (decryptx b lim eng info m)) =
      [Alloc (length m) (length (key_bytes info)),
       Alloc (Suc (length m)) (length (validate_bytes info)),
       Alloc (Suc (Suc (length m))) (length (data_bytes m info)),
       Memcpy (length m) (key_bytes info),
       Memcpy (Suc (length m)) (validate_bytes info),
       Memcpy (Suc (Suc (length m))) (data_bytes m info),
       Engine_Call (length m) (Suc (length m)) (Suc (Suc (length m)))
         (key_bytes info) (validate_bytes info) (data_bytes m info)
         (int_of_size_t (length (data_bytes m info)))] @
      (if r = - 1 then [] else [Buffer_Copy (Suc (Suc (length m))) (size_t_of_int r)])"
    by (simp add: run_trace [OF reach run] ok marshalled_def)
  have size: "sint (int_of_size_t (length (data_bytes m info))) =
      int (length (data_bytes m info))"
    using assms(3) by (rule sint_int_of_size_t)
  have out: "fst (decryptx b lim eng info m) =
      (if r = - 1 then Returned JSNull
       else if kMaxLength lim < size_t_of_int r then Thrown ''ERR_BUFFER_TOO_LARGE''
       else if size_t_of_int r \<le> length d'
         then Returned (JSBuffer (Suc (Suc (Suc (length m)))))
       else Out_Of_Bounds)"
    by (simp add: run_outcome [OF reach run] ok)
  have left: "mem (snd (decryptx b lim eng info m)) =
      m @ [None, None, None] @
      (if r \<noteq> - 1 \<and> size_t_of_int r \<le> kMaxLength lim \<and> size_t_of_int r \<le> length d'
       then [Some (take (size_t_of_int r) d')] else [])"
    by (simp add: run_mem [OF reach run] ok)
  from steps size out left show ?thesis
    by (simp only: simp_thms)
qed

text \<open>Key "k", validate "v" and U+00E9 (two code units, three bytes), three bytes of data.\<close>

theorem inputs_marshalled_for_engine_witness:
  "well_formed [JSString [0x6B], JSString [0x76, 0xE9], JSBuffer 0] [Some [1, 2, 3]] \<and>
   on_stack default_limits [JSString [0x6B], JSString [0x76, 0xE9], JSBuffer 0]
     [Some [1, 2, 3]] \<and>
   sample_engine [0x6B] [0x76, 0xC3, 0xA9] [1, 2, 3] 3 = (2, [2, 3, 0]) \<and>
   trace (snd (decryptx No_Cpp_Exceptions default_limits sample_engine
     [JSString [0x6B], JSString [0x76, 0xE9], JSBuffer 0] [Some [1, 2, 3]])) =
     [Alloc 1 1, Alloc 2 3, Alloc 3 3, Memcpy 1 [0x6B], Memcpy 2 [0x76, 0xC3, 0xA9],
      Memcpy 3 [1, 2, 3], Engine_Call 1 2 3 [0x6B] [0x76, 0xC3, 0xA9] [1, 2, 3] 3,
      Buffer_Copy 3 2] \<and>
   fst (decryptx No_Cpp_Exceptions default_limits sample_engine
     [JSString [0x6B], JSString [0x76, 0xE9], JSBuffer 0] [Some [1, 2, 3]]) =
     Returned (JSBuffer 4) \<and>
   mem (snd (decryptx No_Cpp_Exceptions default_limits sample_engine
     [JSString [0x6B], JSString [0x76, 0xE9], JSBuffer 0] [Some [1, 2, 3]])) =
     [Some [1, 2, 3], None, None, None, Some [2, 3]]"
proof -
  let ?info = "[JSString [0x6B], JSString [0x76, 0xE9], JSBuffer 0]"
  let ?m = "[Some [1, 2, 3]] :: memory"
  have wf: "well_formed ?info ?m"
    by (simp add: eval_defs)
  have fit: "on_stack default_limits ?info ?m"
    by (simp add: on_stack_def eval_defs)
  have k: "key_bytes ?info = [0x6B]"
    by (simp add: eval_defs)
  have v: "validate_bytes ?info = [0x76, 0xC3, 0xA9]"
    by (simp add: eval_defs)
  have d: "data_bytes ?m ?info = [1, 2, 3]"
    by (simp add: eval_defs)
  have small: "length (data_bytes ?m ?info) < 2 ^ 31"
    by (simp add: d)
  have eng: "sample_engine [0x6B] [0x76, 0xC3, 0xA9] [1, 2, 3] 3 = (2, [2, 3, 0])"
    by (simp add: sample_engine_def)
  then have run: "sample_engine (key_bytes ?info) (validate_bytes ?info) (data_bytes ?m ?info)
      (int_of_size_t (length (data_bytes ?m ?info))) = (2, [2, 3, 0])"
    by (simp add: k v d int_of_size_t_def)
  have sz: "size_t_of_int 2 = 2"
    by (simp add: size_t_of_int_def)
  from inputs_marshalled_for_engine
      [where eng = sample_engine and b = No_Cpp_Exceptions, OF wf fit small run] wf fit eng
  show ?thesis
    unfolding k v d sz by (simp add: int_of_size_t_def)
qed

text \<open>
  The claim fails at two well-formed calls. With 8 MiB of data and a stack of 8 MiB the
  third array does not fit: the process is killed after two declarations, in either build,
  and the engine is never called. With \<open>2^31\<close> bytes of data, and a stack that holds them,
  the engine is called with the length \<open>-2^31\<close>.
\<close>

theorem large_data_not_marshalled:
  "well_formed [JSString [0x6B], JSString [0x76], JSBuffer 0] [Some (replicate 8388608 0)] \<and>
   fst (decryptx No_Cpp_Exceptions default_limits sample_engine
     [JSString [0x6B], JSString [0x76], JSBuffer 0] [Some (replicate 8388608 0)]) =
     Process_Crashed \<and>
   fst (decryptx Cpp_Exceptions default_limits sample_engine
     [JSString [0x6B], JSString [0x76], JSBuffer 0] [Some (replicate 8388608 0)]) =
     Process_Crashed \<and>
   trace (snd (decryptx No_Cpp_Exceptions default_limits sample_engine
     [JSString [0x6B], JSString [0x76], JSBuffer 0] [Some (replicate 8388608 0)])) =
     [Alloc 1 1, Alloc 2 1] \<and>
   well_formed [JSString [0x6B], JSString [0x76], JSBuffer 0]
     [Some (replicate 2147483648 0)] \<and>
   on_stack large_stack [JSString [0x6B], JSString [0x76], JSBuffer 0]
     [Some (replicate 2147483648 0)] \<and>
   Engine_Call 1 2 3 [0x6B] [0x76] (replicate 2147483648 0) (int_of_size_t 2147483648)
     \<in> set (trace (snd (decryptx No_Cpp_Exceptions large_stack sample_engine
       [JSString [0x6B], JSString [0x76], JSBuffer 0] [Some (replicate 2147483648 0)]))) \<and>
   sint (int_of_size_t 2147483648) = - 2147483648"
proof -
  let ?info = "[JSString [0x6B], JSString [0x76], JSBuffer 0]"
  let ?m = "[Some (replicate 8388608 0)] :: memory"
  let ?M = "[Some (replicate 2147483648 0)] :: memory"
  have k: "key_bytes ?info = [0x6B]" and v: "validate_bytes ?info = [0x76]"
    by (simp_all add: key_bytes_def validate_bytes_def arg_def String_bytes_def
        utf8_unit_def utf8_encode_def high_surrogate_def low_surrogate_def)
  have d: "data_bytes ?m ?info = replicate 8388608 0"
    and D: "data_bytes ?M ?info = replicate 2147483648 0"
    by (simp_all add: data_bytes_def arg_def Buffer_bytes_def block_def)
  have wf: "well_formed ?info ?m" and WF: "well_formed ?info ?M"
    by (simp_all add: well_formed_def arg_def IsString_def IsBuffer_def)
  have over: "\<not> on_stack default_limits ?info ?m"
    by (simp add: on_stack_def k v d)
  have fit: "on_stack large_stack ?info ?M"
    by (simp add: on_stack_def k v D)
  note crash = decryptx_overflows [OF well_formed_passes [OF wf] over]
  have c1: "fst (decryptx No_Cpp_Exceptions default_limits sample_engine ?info ?m) =
      Process_Crashed"
    by (rule crash(1))
  have c2: "fst (decryptx Cpp_Exceptions default_limits sample_engine ?info ?m) =
      Process_Crashed"
    by (rule crash(1))
  from wf have ok: "violations ?info ?m = []"
    by (simp add: violations_well_formed)
  have c3: "trace (snd (decryptx No_Cpp_Exceptions default_limits sample_engine ?info ?m)) =
      [Alloc 1 1, Alloc 2 1]"
    by (simp add: crash(4) ok declared_def k v)
  obtain r d' where run: "engine_run sample_engine ?info ?M = (r, d')"
    by (cases "engine_run sample_engine ?info ?M")
  note reach = well_formed_reaches [OF WF fit, of No_Cpp_Exceptions]
  from WF have OK: "violations ?info ?M = []"
    by (simp add: violations_well_formed)
  have c4: "Engine_Call 1 2 3 [0x6B] [0x76] (replicate 2147483648 0)
      (int_of_size_t 2147483648)
      \<in> set (trace (snd (decryptx No_Cpp_Exceptions large_stack sample_engine ?info ?M)))"
    by (simp add: run_trace [OF reach run] OK marshalled_def k v D)
  have c5: "sint (int_of_size_t 2147483648) = - 2147483648"
    by (simp add: int_of_size_t_def)
  from wf c1 c2 c3 WF fit c4 c5 show ?thesis
    by (simp only: simp_thms)
qed

text \<open>
  C9. On a well-formed call in which the engine is reached, the caller gets \<^verbatim>\<open>null\<close>
  exactly when the engine returns \<open>-1\<close>. For every other returned value \<open>r\<close>, negative
  ones too, the run goes on to \<^verbatim>\<open>Buffer::Copy\<close> on the data array with \<open>r\<close> converted to
  \<^verbatim>\<open>size_t\<close> as the length.
\<close>

theorem only_minus_one_is_absent:
  assumes "well_formed info m" and "on_stack lim info m"
    and "engine_run eng info m = (r, d')"
  shows "(fst (decryptx b lim eng info m) = Returned JSNull \<longleftrightarrow> r = - 1) \<and>
         (r \<noteq> - 1 \<longrightarrow>
            last (trace (snd (decryptx b lim eng info m))) =
              Buffer_Copy (Suc (Suc (length m))) (size_t_of_int r)) \<and>
         (r = - 1 \<longrightarrow>
            (\<forall>a n. Buffer_Copy a n \<notin> set (trace (snd (decryptx b lim eng info m)))))"
proof -
  note reach = well_formed_reaches [OF assms(1,2), of b]
  from assms(1) have ok: "violations info m = []"
    by (simp add: violations_well_formed)
  have "fst (decryptx b lim eng info m) = Returned JSNull \<longleftrightarrow> r = - 1"
    by (simp add: run_outcome [OF reach assms(3)] ok)
  moreover have "r \<noteq> - 1 \<longrightarrow>
      last (trace (snd (decryptx b lim eng info m))) =
        Buffer_Copy (Suc (Suc (length m))) (size_t_of_int r)"
    by (simp add: run_trace [OF reach assms(3)] ok marshalled_def)
  moreover have "r = - 1 \<longrightarrow>
      (\<forall>a n. Buffer_Copy a n \<notin> set (trace (snd (decryptx b lim eng info m))))"
    by (auto simp: run_trace [OF reach assms(3)] ok marshalled_def)
  ultimately show ?thesis
    by blast
qed

text \<open>
  An engine that returns \<open>-2\<close>: the copy is asked for \<open>2^64 - 2\<close> bytes, which the
  runtime refuses.
\<close>

theorem only_minus_one_is_absent_witness:
  "well_formed [JSString [0x6B], JSString [0x76], JSBuffer 0] [Some [1, 2, 3]] \<and>
   on_stack default_limits [JSString [0x6B], JSString [0x76], JSBuffer 0] [Some [1, 2, 3]] \<and>
   engine_run (\<lambda>k v d n. (- 2, d)) [JSString [0x6B], JSString [0x76], JSBuffer 0]
     [Some [1, 2, 3]] = (- 2, [1, 2, 3]) \<and>
   fst (decryptx No_Cpp_Exceptions default_limits (\<lambda>k v d n. (- 2, d))
     [JSString [0x6B], JSString [0x76], JSBuffer 0] [Some [1, 2, 3]]) =
     Thrown ''ERR_BUFFER_TOO_LARGE'' \<and>
   last (trace (snd (decryptx No_Cpp_Exceptions default_limits (\<lambda>k v d n. (- 2, d))
     [JSString [0x6B], JSString [0x76], JSBuffer 0] [Some [1, 2, 3]]))) =
     Buffer_Copy 3 18446744073709551614"
proof -
  let ?info = "[JSString [0x6B], JSString [0x76], JSBuffer 0]"
  let ?m = "[Some [1, 2, 3]] :: memory"
  have wf: "well_formed ?info ?m"
    by (simp add: eval_defs)
  have fit: "on_stack default_limits ?info ?m"
    by (simp add: on_stack_def eval_defs)
  note reach = well_formed_reaches [OF wf fit, of No_Cpp_Exceptions]
  have run: "engine_run (\<lambda>k v d n. (- 2, d)) ?info ?m = (- 2, [1, 2, 3])"
    by (simp add: eval_defs)
  have sz: "size_t_of_int (- 2) = 18446744073709551614"
    by (simp add: size_t_of_int_def)
  have out: "fst (decryptx No_Cpp_Exceptions default_limits (\<lambda>k v d n. (- 2, d)) ?info ?m) =
      Thrown ''ERR_BUFFER_TOO_LARGE''"
    by (simp add: run_outcome [OF reach run] sz violations_well_formed wf)
  from only_minus_one_is_absent [OF wf fit run, of No_Cpp_Exceptions] wf fit run out
  show ?thesis
    unfolding sz by simp
qed

text \<open>A result that is not negative is not the failure signal.\<close>

lemma minus_one_negative: "0 \<le> sint (r :: c_int) \<Longrightarrow> r \<noteq> - 1"
  by auto

text \<open>
  C2. On a well-formed call in which the engine is reached and, within its contract,
  returns \<open>r \<ge> 0\<close>, the caller gets a Buffer of exactly \<open>r\<close> bytes, the first \<open>r\<close> bytes
  the engine left in the data array. The Buffer is a new block: it did not exist before
  the call, the blocks of the caller are as they were, and a later write to either the
  returned block or a block of the caller leaves the other unchanged. The engine is
  reached when the three arrays fit in the stack; the data Buffer is one the runtime can
  hold, so that the runtime accepts the \<open>r\<close> bytes.
\<close>

theorem decoded_prefix_returned:
  assumes "well_formed info m"
    and "on_stack lim info m" and "data_allowed lim info m"
    and "engine_run eng info m = (r, d')"
    and "in_contract eng info m"
    and "0 \<le> sint r"
  shows "\<exists>p. fst (decryptx b lim eng info m) = Returned (JSBuffer p) \<and>
             load (mem (snd (decryptx b lim eng info m))) p = Some (take (nat (sint r)) d') \<and>
             length (take (nat (sint r)) d') = nat (sint r) \<and>
             load m p = None \<and>
             (\<forall>a. a < length m \<longrightarrow>
                load (mem (snd (decryptx b lim eng info m))) a = load m a) \<and>
             (\<forall>a bs. a < length m \<longrightarrow>
                load (store p bs (mem (snd (decryptx b lim eng info m)))) a = load m a) \<and>
             (\<forall>a bs. a < length m \<longrightarrow>
                load (store a bs (mem (snd (decryptx b lim eng info m)))) p =
                  Some (take (nat (sint r)) d'))"
proof -
  let ?env = "snd (decryptx b lim eng info m)"
  let ?p = "Suc (Suc (Suc (length m)))"
  note reach = well_formed_reaches [OF assms(1,2), of b]
  from assms(1) have ok: "violations info m = []"
    by (simp add: violations_well_formed)
  from assms(6) have live: "r \<noteq> - 1"
    by (rule minus_one_negative)
  note fits = in_contract_fits [OF assms(5) assms(4) live]
  note allowed = in_contract_allowed [OF assms(5) assms(4) live assms(3)]
  have out: "fst (decryptx b lim eng info m) = Returned (JSBuffer ?p)"
    using allowed by (simp add: run_outcome [OF reach assms(4)] ok live fits(1))
  have mem: "mem ?env = m @ [None, None, None, Some (take (nat (sint r)) d')]"
    using fits allowed by (simp add: run_mem [OF reach assms(4)] ok live)
  have new: "load (mem ?env) ?p = Some (take (nat (sint r)) d')"
    by (simp add: mem)
  have len: "length (take (nat (sint r)) d') = nat (sint r)"
    using fits by simp
  have fresh: "load m ?p = None"
    by (simp add: load_beyond)
  have kept: "\<forall>a. a < length m \<longrightarrow> load (mem ?env) a = load m a"
    by (simp add: caller_blocks_kept)
  have indep1: "\<forall>a bs. a < length m \<longrightarrow> load (store ?p bs (mem ?env)) a = load m a"
    by (simp add: load_store_other caller_blocks_kept)
  have indep2: "\<forall>a bs. a < length m \<longrightarrow>
      load (store a bs (mem ?env)) ?p = Some (take (nat (sint r)) d')"
    using new by (simp add: load_store_other)
  from out new len fresh kept indep1 indep2 show ?thesis
    by blast
qed

text \<open>The stand-in engine on three bytes returns 2 and leaves the bytes shifted.\<close>

theorem decoded_prefix_returned_witness:
  "well_formed [JSString [0x6B], JSString [0x76], JSBuffer 0] [Some [1, 2, 3]] \<and>
   on_stack default_limits [JSString [0x6B], JSString [0x76], JSBuffer 0] [Some [1, 2, 3]] \<and>
   data_allowed default_limits [JSString [0x6B], JSString [0x76], JSBuffer 0]
     [Some [1, 2, 3]] \<and>
   engine_run sample_engine [JSString [0x6B], JSString [0x76], JSBuffer 0] [Some [1, 2, 3]] =
     (2, [2, 3, 0]) \<and>
   in_contract sample_engine [JSString [0x6B], JSString [0x76], JSBuffer 0] [Some [1, 2, 3]] \<and>
   (\<exists>p. fst (decryptx No_Cpp_Exceptions default_limits sample_engine
          [JSString [0x6B], JSString [0x76], JSBuffer 0] [Some [1, 2, 3]]) =
          Returned (JSBuffer p) \<and>
        load (mem (snd (decryptx No_Cpp_Exceptions default_limits sample_engine
          [JSString [0x6B], JSString [0x76], JSBuffer 0] [Some [1, 2, 3]]))) p =
          Some [2, 3] \<and>
        load (mem (snd (decryptx No_Cpp_Exceptions default_limits sample_engine
          [JSString [0x6B], JSString [0x76], JSBuffer 0] [Some [1, 2, 3]]))) 0 =
          Some [1, 2, 3])"
proof -
  let ?info = "[JSString [0x6B], JSString [0x76], JSBuffer 0]"
  let ?m = "[Some [1, 2, 3]] :: memory"
  have wf: "well_formed ?info ?m"
    by (simp add: eval_defs)
  have fit: "on_stack default_limits ?info ?m"
    by (simp add: on_stack_def eval_defs)
  have ok: "data_allowed default_limits ?info ?m"
    by (simp add: data_allowed_def eval_defs)
  have run: "engine_run sample_engine ?info ?m = (2, [2, 3, 0])"
    by (simp add: eval_defs)
  have con: "in_contract sample_engine ?info ?m"
    by (simp add: in_contract_def engine_contract_def eval_defs)
  have pos: "0 \<le> sint (2 :: c_int)"
    by simp
  from decoded_prefix_returned [OF wf fit ok run con pos, of No_Cpp_Exceptions]
    wf fit ok run con
  show ?thesis
    by auto
qed

text \<open>
  C5. On a well-formed call, with the engine within its contract, a Buffer returned to the
  caller has at most as many bytes as the data argument.
\<close>

theorem result_not_longer_than_data:
  assumes "well_formed info m"
    and "in_contract eng info m"
    and "fst (decryptx b lim eng info m) = Returned (JSBuffer p)"
  shows "length (block (mem (snd (decryptx b lim eng info m))) p)
           \<le> length (data_bytes m info)"
proof -
  obtain r d' where run: "engine_run eng info m = (r, d')"
    by (cases "engine_run eng info m")
  have fit: "on_stack lim info m"
  proof (rule ccontr)
    assume "\<not> on_stack lim info m"
    from decryptx_overflows(1) [OF well_formed_passes [OF assms(1)] this] assms(3)
    show False
      by simp
  qed
  note reach = well_formed_reaches [OF assms(1) fit, of b]
  from assms(1) have ok: "violations info m = []"
    by (simp add: violations_well_formed)
  from assms(3) have live: "r \<noteq> - 1"
    by (auto simp: run_outcome [OF reach run] ok split: if_splits)
  from assms(3) live have allowed: "size_t_of_int r \<le> kMaxLength lim"
    by (auto simp: run_outcome [OF reach run] ok split: if_splits)
  note fits = in_contract_fits [OF assms(2) run live]
  from assms(3) have p: "p = Suc (Suc (Suc (length m)))"
    using allowed by (simp add: run_outcome [OF reach run] ok live fits(1))
  have "block (mem (snd (decryptx b lim eng info m))) p = take (size_t_of_int r) d'"
    using fits(1) allowed by (simp add: run_mem [OF reach run] ok live p block_def)
  then show ?thesis
    using in_contract_run(1) [OF assms(2) run] by simp
qed

text \<open>Two bytes returned for three bytes of data.\<close>

theorem result_not_longer_than_data_witness:
  "well_formed [JSString [0x6B], JSString [0x76], JSBuffer 0] [Some [1, 2, 3]] \<and>
   in_contract sample_engine [JSString [0x6B], JSString [0x76], JSBuffer 0] [Some [1, 2, 3]] \<and>
   fst (decryptx No_Cpp_Exceptions default_limits sample_engine
     [JSString [0x6B], JSString [0x76], JSBuffer 0] [Some [1, 2, 3]]) =
     Returned (JSBuffer 4) \<and>
   length (block (mem (snd (decryptx No_Cpp_Exceptions default_limits sample_engine
     [JSString [0x6B], JSString [0x76], JSBuffer 0] [Some [1, 2, 3]]))) 4) \<le> 3"
proof -
  let ?info = "[JSString [0x6B], JSString [0x76], JSBuffer 0]"
  let ?m = "[Some [1, 2, 3]] :: memory"
  have wf: "well_formed ?info ?m"
    by (simp add: eval_defs)
  have fit: "on_stack default_limits ?info ?m"
    by (simp add: on_stack_def eval_defs)
  note reach = well_formed_reaches [OF wf fit, of No_Cpp_Exceptions]
  have run: "engine_run sample_engine ?info ?m = (2, [2, 3, 0])"
    by (simp add: eval_defs)
  have con: "in_contract sample_engine ?info ?m"
    by (simp add: in_contract_def engine_contract_def eval_defs)
  have sz: "size_t_of_int 2 = 2"
    by (simp add: size_t_of_int_def)
  have out: "fst (decryptx No_Cpp_Exceptions default_limits sample_engine ?info ?m) =
      Returned (JSBuffer 4)"
    by (simp add: run_outcome [OF reach run] sz violations_well_formed wf)
  have d: "data_bytes ?m ?info = [1, 2, 3]"
    by (simp add: eval_defs)
  from result_not_longer_than_data [OF wf con out] wf con out show ?thesis
    unfolding d by simp
qed


subsection \<open>Every call\<close>

text \<open>The arrays of a run, and the Buffer it returns.\<close>

lemma Alloc_in_trace:
  assumes "Alloc q n \<in> set (trace (snd (decryptx b lim eng info m)))"
  shows "q = length m \<or> q = Suc (length m) \<or> q = Suc (Suc (length m))"
    and "load (mem (snd (decryptx b lim eng info m))) q = None"
proof -
  obtain r d' where run: "engine_run eng info m = (r, d')"
    by (cases "engine_run eng info m")
  have "(q = length m \<or> q = Suc (length m) \<or> q = Suc (Suc (length m))) \<and>
      load (mem (snd (decryptx b lim eng info m))) q = None"
  proof (cases rule: call_cases [where b = b and info = info and m = m and lim = lim])
    case stops
    with assms show ?thesis
      by (auto simp: decryptx_stops)
  next
    case overflows
    note crash = decryptx_overflows [OF overflows, of eng]
    from assms have q: "q = length m \<or> q = Suc (length m)"
      by (auto simp: crash(4) declared_def split: if_splits)
    then have "load m q = None"
      by (auto simp: load_beyond)
    with q show ?thesis
      by (auto simp: crash(2) load_released)
  next
    case reaches
    from assms have q: "q = length m \<or> q = Suc (length m) \<or> q = Suc (Suc (length m))"
      by (auto simp: run_trace [OF reaches run] marshalled_def split: if_splits)
    then show ?thesis
      by (auto simp: run_mem [OF reaches run])
  qed
  then show "q = length m \<or> q = Suc (length m) \<or> q = Suc (Suc (length m))"
    and "load (mem (snd (decryptx b lim eng info m))) q = None"
    by simp_all
qed

lemma returned_buffer_is_new:
  assumes "fst (decryptx b lim eng info m) = Returned (JSBuffer p)"
  shows "p = Suc (Suc (Suc (length m)))"
proof -
  obtain r d' where run: "engine_run eng info m = (r, d')"
    by (cases "engine_run eng info m")
  show ?thesis
  proof (cases rule: call_cases [where b = b and info = info and m = m and lim = lim])
    case stops
    with assms show ?thesis
      by (cases b) (simp_all add: decryptx_stops)
  next
    case overflows
    with assms show ?thesis
      by (simp add: decryptx_overflows(1))
  next
    case reaches
    with assms show ?thesis
      by (auto simp: run_outcome [OF reaches run] split: if_splits)
  qed
qed

text \<open>
  C6. For every call, every engine, every memory, either build and any limits: each block
  the caller had, the data buffer among them, holds after the call what it held before;
  the engine works on the arrays of \<^verbatim>\<open>Decryptx\<close> only. A Buffer returned to the caller is
  a block that did not exist before the call and is none of the three arrays; the arrays
  did not exist before the call either, and are released when it returns.
\<close>

theorem caller_memory_untouched:
  "(\<forall>a. a < length m \<longrightarrow> load (mem (snd (decryptx b lim eng info m))) a = load m a) \<and>
   (\<forall>p. fst (decryptx b lim eng info m) = Returned (JSBuffer p) \<longrightarrow>
      load m p = None \<and>
      (\<forall>q n. Alloc q n \<in> set (trace (snd (decryptx b lim eng info m))) \<longrightarrow> p \<noteq> q)) \<and>
   (\<forall>q n. Alloc q n \<in> set (trace (snd (decryptx b lim eng info m))) \<longrightarrow>
      load m q = None \<and> load (mem (snd (decryptx b lim eng info m))) q = None)"
proof (intro conjI allI impI)
  fix a
  assume "a < length m"
  then show "load (mem (snd (decryptx b lim eng info m))) a = load m a"
    by (rule caller_blocks_kept)
next
  fix p
  assume "fst (decryptx b lim eng info m) = Returned (JSBuffer p)"
  then have p: "p = Suc (Suc (Suc (length m)))"
    by (rule returned_buffer_is_new)
  show "load m p = None"
    by (simp add: p load_beyond)
  fix q n
  assume "Alloc q n \<in> set (trace (snd (decryptx b lim eng info m)))"
  from Alloc_in_trace(1) [OF this] show "p \<noteq> q"
    by (auto simp: p)
next
  fix q n
  assume "Alloc q n \<in> set (trace (snd (decryptx b lim eng info m)))"
  note q = Alloc_in_trace [OF this]
  from q(1) show "load m q = None"
    by (auto simp: load_beyond)
  from q(2) show "load (mem (snd (decryptx b lim eng info m))) q = None" .
qed

text \<open>The data block at address 0, the data array at 3, the result at 4.\<close>

theorem caller_memory_untouched_witness:
  "load (mem (snd (decryptx No_Cpp_Exceptions default_limits sample_engine
     [JSString [0x6B], JSString [0x76], JSBuffer 0] [Some [1, 2, 3]]))) 0 = Some [1, 2, 3] \<and>
   fst (decryptx No_Cpp_Exceptions default_limits sample_engine
     [JSString [0x6B], JSString [0x76], JSBuffer 0] [Some [1, 2, 3]]) =
     Returned (JSBuffer 4) \<and>
   Alloc 3 3 \<in> set (trace (snd (decryptx No_Cpp_Exceptions default_limits sample_engine
     [JSString [0x6B], JSString [0x76], JSBuffer 0] [Some [1, 2, 3]]))) \<and>
   load (mem (snd (decryptx No_Cpp_Exceptions default_limits sample_engine
     [JSString [0x6B], JSString [0x76], JSBuffer 0] [Some [1, 2, 3]]))) 3 = None"
proof -
  let ?info = "[JSString [0x6B], JSString [0x76], JSBuffer 0]"
  let ?m = "[Some [1, 2, 3]] :: memory"
  have wf: "well_formed ?info ?m"
    by (simp add: eval_defs)
  have fit: "on_stack default_limits ?info ?m"
    by (simp add: on_stack_def eval_defs)
  note reach = well_formed_reaches [OF wf fit, of No_Cpp_Exceptions]
  have run: "engine_run sample_engine ?info ?m = (2, [2, 3, 0])"
    by (simp add: eval_defs)
  have sz: "size_t_of_int 2 = 2"
    by (simp add: size_t_of_int_def)
  have out: "fst (decryptx No_Cpp_Exceptions default_limits sample_engine ?info ?m) =
      Returned (JSBuffer 4)"
    by (simp add: run_outcome [OF reach run] sz violations_well_formed wf)
  have d: "data_bytes ?m ?info = [1, 2, 3]"
    by (simp add: eval_defs)
  have al: "Alloc 3 3 \<in> set (trace (snd (decryptx No_Cpp_Exceptions default_limits
      sample_engine ?info ?m)))"
    by (simp add: run_trace [OF reach run] marshalled_def d)
  from caller_memory_untouched [of ?m No_Cpp_Exceptions default_limits sample_engine ?info]
    out al
  show ?thesis
    by (auto simp: load_def)
qed








subsection \<open>Boundary and encoding\<close>

text \<open>
  C8. The claim: a call with a string key, a string validate argument and a data Buffer of
  length 0 raises no failure, does not crash and calls the engine with length 0, so that
  it ends with a result or \<^verbatim>\<open>null\<close>.

  The code does so when the arrays of the key and of the validate string fit in the stack.
  Then nothing is thrown, the data array is declared with 0 bytes, and the engine is called
  with the empty array and length 0; with the engine within its contract the call ends
  with \<^verbatim>\<open>null\<close> or with an empty Buffer.
\<close>

theorem empty_data_accepted:
  assumes "well_formed info m"
    and "data_bytes m info = []"
    and "in_contract eng info m"
    and "on_stack lim info m"
  shows "pending (snd (decryptx b lim eng info m)) = None \<and>
         (\<forall>msg. Throw msg \<notin> set (trace (snd (decryptx b lim eng info m)))) \<and>
         Alloc (Suc (Suc (length m))) 0 \<in> set (trace (snd (decryptx b lim eng info m))) \<and>
         Engine_Call (length m) (Suc (length m)) (Suc (Suc (length m)))
           (key_bytes info) (validate_bytes info) [] 0
           \<in> set (trace (snd (decryptx b lim eng info m))) \<and>
         (fst (decryptx b lim eng info m) = Returned JSNull \<or>
          (\<exists>p. fst (decryptx b lim eng info m) = Returned (JSBuffer p) \<and>
               load (mem (snd (decryptx b lim eng info m))) p = Some []))"
proof -
  obtain r d' where run: "engine_run eng info m = (r, d')"
    by (cases "engine_run eng info m")
  note reach = well_formed_reaches [OF assms(1,4), of b]
  from assms(1) have ok: "violations info m = []"
    by (simp add: violations_well_formed)
  from in_contract_run(1) [OF assms(3) run] assms(2) have empty: "d' = []"
    by simp
  have none: "r \<noteq> - 1 \<Longrightarrow> size_t_of_int r = 0"
    using in_contract_fits(1) [OF assms(3) run] empty by simp
  have "pending (snd (decryptx b lim eng info m)) = None"
    using none by (auto simp: run_pending [OF reach run] ok first_pending_def)
  moreover have "\<forall>msg. Throw msg \<notin> set (trace (snd (decryptx b lim eng info m)))"
    by (auto simp: run_trace [OF reach run] ok marshalled_def)
  moreover have "Alloc (Suc (Suc (length m))) 0
      \<in> set (trace (snd (decryptx b lim eng info m)))"
    by (simp add: run_trace [OF reach run] ok marshalled_def assms(2))
  moreover have "Engine_Call (length m) (Suc (length m)) (Suc (Suc (length m)))
      (key_bytes info) (validate_bytes info) [] 0
      \<in> set (trace (snd (decryptx b lim eng info m)))"
    by (simp add: run_trace [OF reach run] ok marshalled_def assms(2) int_of_size_t_def)
  moreover have "fst (decryptx b lim eng info m) = Returned JSNull \<or>
      (\<exists>p. fst (decryptx b lim eng info m) = Returned (JSBuffer p) \<and>
           load (mem (snd (decryptx b lim eng info m))) p = Some [])"
  proof (cases "r = - 1")
    case True
    then show ?thesis
      by (simp add: run_outcome [OF reach run] ok)
  next
    case False
    have "fst (decryptx b lim eng info m) = Returned (JSBuffer (Suc (Suc (Suc (length m)))))"
      by (simp add: run_outcome [OF reach run] ok False none [OF False])
    moreover have "load (mem (snd (decryptx b lim eng info m))) (Suc (Suc (Suc (length m)))) =
        Some []"
      by (simp add: run_mem [OF reach run] ok False none [OF False] empty)
    ultimately show ?thesis
      by blast
  qed
  ultimately show ?thesis
    by blast
qed

text \<open>The stand-in engine fails on the empty buffer.\<close>

theorem empty_data_accepted_witness:
  "well_formed [JSString [0x6B], JSString [0x76], JSBuffer 0] [Some []] \<and>
   data_bytes [Some []] [JSString [0x6B], JSString [0x76], JSBuffer 0] = [] \<and>
   in_contract sample_engine [JSString [0x6B], JSString [0x76], JSBuffer 0] [Some []] \<and>
   on_stack default_limits [JSString [0x6B], JSString [0x76], JSBuffer 0] [Some []] \<and>
   pending (snd (decryptx No_Cpp_Exceptions default_limits sample_engine
     [JSString [0x6B], JSString [0x76], JSBuffer 0] [Some []])) = None \<and>
   Engine_Call 1 2 3 [0x6B] [0x76] [] 0 \<in> set (trace (snd (decryptx No_Cpp_Exceptions
     default_limits sample_engine [JSString [0x6B], JSString [0x76], JSBuffer 0]
     [Some []]))) \<and>
   fst (decryptx No_Cpp_Exceptions default_limits sample_engine
     [JSString [0x6B], JSString [0x76], JSBuffer 0] [Some []]) = Returned JSNull"
proof -
  let ?info = "[JSString [0x6B], JSString [0x76], JSBuffer 0]"
  let ?m = "[Some []] :: memory"
  have wf: "well_formed ?info ?m"
    by (simp add: eval_defs)
  have fit: "on_stack default_limits ?info ?m"
    by (simp add: on_stack_def eval_defs)
  note reach = well_formed_reaches [OF wf fit, of No_Cpp_Exceptions]
  have d: "data_bytes ?m ?info = []"
    by (simp add: eval_defs)
  have k: "key_bytes ?info = [0x6B]"
    by (simp add: eval_defs)
  have v: "validate_bytes ?info = [0x76]"
    by (simp add: eval_defs)
  have con: "in_contract sample_engine ?info ?m"
    by (simp add: in_contract_def engine_contract_def eval_defs)
  have run: "engine_run sample_engine ?info ?m = (- 1, [])"
    by (simp add: eval_defs)
  have out: "fst (decryptx No_Cpp_Exceptions default_limits sample_engine ?info ?m) =
      Returned JSNull"
    by (simp add: run_outcome [OF reach run] violations_well_formed wf)
  from empty_data_accepted [OF wf d con fit, of No_Cpp_Exceptions] wf d con fit out
  show ?thesis
    unfolding k v by (simp add: eval_nat_numeral)
qed

text \<open>
  The claim fails at a key of 8 MiB and one byte, for a stack of 8 MiB: the call is well
  formed, its data is empty and the engine is within its contract, yet the array of the
  key does not fit. The process is killed at the first declaration, in either build, and
  the engine is never called.
\<close>

theorem long_key_crashes:
  "well_formed [JSString (replicate 8388609 0x41), JSString [0x76], JSBuffer 0] [Some []] \<and>
   data_bytes [Some []] [JSString (replicate 8388609 0x41), JSString [0x76], JSBuffer 0] =
     [] \<and>
   in_contract sample_engine [JSString (replicate 8388609 0x41), JSString [0x76], JSBuffer 0]
     [Some []] \<and>
   fst (decryptx No_Cpp_Exceptions default_limits sample_engine
     [JSString (replicate 8388609 0x41), JSString [0x76], JSBuffer 0] [Some []]) =
     Process_Crashed \<and>
   fst (decryptx Cpp_Exceptions default_limits sample_engine
     [JSString (replicate 8388609 0x41), JSString [0x76], JSBuffer 0] [Some []]) =
     Process_Crashed \<and>
   trace (snd (decryptx No_Cpp_Exceptions default_limits sample_engine
     [JSString (replicate 8388609 0x41), JSString [0x76], JSBuffer 0] [Some []])) = []"
proof -
  let ?info = "[JSString (replicate 8388609 0x41), JSString [0x76], JSBuffer 0]"
  let ?m = "[Some []] :: memory"
  have wf: "well_formed ?info ?m"
    by (simp add: well_formed_def arg_def IsString_def IsBuffer_def)
  have d: "data_bytes ?m ?info = []"
    by (simp add: data_bytes_def arg_def Buffer_bytes_def block_def)
  have con: "in_contract sample_engine ?info ?m"
    by (simp add: in_contract_def engine_contract_def d sample_engine_def)
  have k: "key_bytes ?info = utf8 (replicate 8388609 0x41)"
    by (simp add: key_bytes_def arg_def String_bytes_def)
  have long: "8388609 \<le> length (key_bytes ?info)"
    unfolding k using length_utf8 [of "replicate 8388609 0x41"] by simp
  then have over: "\<not> on_stack default_limits ?info ?m"
    by (simp add: on_stack_def)
  note crash = decryptx_overflows [OF well_formed_passes [OF wf] over]
  have c1: "fst (decryptx No_Cpp_Exceptions default_limits sample_engine ?info ?m) =
      Process_Crashed"
    by (rule crash(1))
  have c2: "fst (decryptx Cpp_Exceptions default_limits sample_engine ?info ?m) =
      Process_Crashed"
    by (rule crash(1))
  from wf have ok: "violations ?info ?m = []"
    by (simp add: violations_well_formed)
  have c3: "trace (snd (decryptx No_Cpp_Exceptions default_limits sample_engine ?info ?m)) =
      []"
    using long by (simp add: crash(4) ok declared_def)
  from wf d con c1 c2 c3 show ?thesis
    by (simp only: simp_thms)
qed

text \<open>
  C10. On a well-formed call in which the engine is reached, it is handed the UTF-8
  encodings of the key and validate strings, and the two arrays have the lengths of these
  encodings. The encoding is never shorter than the string in code units, and strictly
  longer as soon as one code unit is not ASCII.
\<close>

theorem engine_gets_utf8_bytes:
  assumes "well_formed info m" and "on_stack lim info m"
    and "arg info 0 = JSString ks"
    and "arg info 1 = JSString ts"
  shows "(\<exists>d n. Engine_Call (length m) (Suc (length m)) (Suc (Suc (length m)))
            (utf8 ks) (utf8 ts) d n \<in> set (trace (snd (decryptx b lim eng info m)))) \<and>
         Alloc (length m) (length (utf8 ks)) \<in> set (trace (snd (decryptx b lim eng info m))) \<and>
         Alloc (Suc (length m)) (length (utf8 ts))
           \<in> set (trace (snd (decryptx b lim eng info m))) \<and>
         length ks \<le> length (utf8 ks) \<and> length ts \<le> length (utf8 ts) \<and>
         ((\<exists>u \<in> set ks. 0x80 \<le> u) \<longrightarrow> length ks < length (utf8 ks)) \<and>
         ((\<exists>u \<in> set ts. 0x80 \<le> u) \<longrightarrow> length ts < length (utf8 ts))"
proof -
  obtain r d' where run: "engine_run eng info m = (r, d')"
    by (cases "engine_run eng info m")
  note reach = well_formed_reaches [OF assms(1,2), of b]
  from assms(1) have ok: "violations info m = []"
    by (simp add: violations_well_formed)
  from assms(3) have k: "key_bytes info = utf8 ks"
    by (simp add: key_bytes_def String_bytes_def)
  from assms(4) have v: "validate_bytes info = utf8 ts"
    by (simp add: validate_bytes_def String_bytes_def)
  have "\<exists>d n. Engine_Call (length m) (Suc (length m)) (Suc (Suc (length m)))
      (utf8 ks) (utf8 ts) d n \<in> set (trace (snd (decryptx b lim eng info m)))"
    by (auto simp: run_trace [OF reach run] ok marshalled_def k v)
  moreover have "Alloc (length m) (length (utf8 ks))
      \<in> set (trace (snd (decryptx b lim eng info m)))"
    by (simp add: run_trace [OF reach run] ok marshalled_def k v)
  moreover have "Alloc (Suc (length m)) (length (utf8 ts))
      \<in> set (trace (snd (decryptx b lim eng info m)))"
    by (simp add: run_trace [OF reach run] ok marshalled_def k v)
  moreover note length_utf8 [of ks] length_utf8 [of ts]
  moreover have "(\<exists>u \<in> set ks. 0x80 \<le> u) \<longrightarrow> length ks < length (utf8 ks)"
    using length_utf8_wide [of ks] by blast
  moreover have "(\<exists>u \<in> set ts. 0x80 \<le> u) \<longrightarrow> length ts < length (utf8 ts)"
    using length_utf8_wide [of ts] by blast
  ultimately show ?thesis
    by blast
qed

text \<open>U+00E9 takes two bytes.\<close>

theorem engine_gets_utf8_bytes_witness:
  "well_formed [JSString [0x6B], JSString [0x76, 0xE9], JSBuffer 0] [Some [1, 2, 3]] \<and>
   on_stack default_limits [JSString [0x6B], JSString [0x76, 0xE9], JSBuffer 0]
     [Some [1, 2, 3]] \<and>
   utf8 [0x76, 0xE9] = [0x76, 0xC3, 0xA9] \<and>
   Engine_Call 1 2 3 [0x6B] [0x76, 0xC3, 0xA9] [1, 2, 3] 3
     \<in> set (trace (snd (decryptx No_Cpp_Exceptions default_limits sample_engine
       [JSString [0x6B], JSString [0x76, 0xE9], JSBuffer 0] [Some [1, 2, 3]]))) \<and>
   Alloc 2 3 \<in> set (trace (snd (decryptx No_Cpp_Exceptions default_limits sample_engine
       [JSString [0x6B], JSString [0x76, 0xE9], JSBuffer 0] [Some [1, 2, 3]]))) \<and>
   length [0x76, 0xE9 :: 16 word] < length (utf8 [0x76, 0xE9])"
proof -
  let ?info = "[JSString [0x6B], JSString [0x76, 0xE9], JSBuffer 0]"
  let ?m = "[Some [1, 2, 3]] :: memory"
  have wf: "well_formed ?info ?m"
    by (simp add: eval_defs)
  have fit: "on_stack default_limits ?info ?m"
    by (simp add: on_stack_def eval_defs)
  note reach = well_formed_reaches [OF wf fit, of No_Cpp_Exceptions]
  have k: "utf8 [0x6B] = [0x6B]"
    by (simp add: eval_defs)
  have v: "utf8 [0x76, 0xE9] = [0x76, 0xC3, 0xA9]"
    by (simp add: eval_defs)
  have a0: "arg ?info 0 = JSString [0x6B]"
    by (simp add: arg_def)
  have a1: "arg ?info 1 = JSString [0x76, 0xE9]"
    by (simp add: arg_def)
  have run: "engine_run sample_engine ?info ?m = (2, [2, 3, 0])"
    by (simp add: eval_defs)
  have ec: "Engine_Call 1 2 3 [0x6B] [0x76, 0xC3, 0xA9] [1, 2, 3] 3
     \<in> set (trace (snd (decryptx No_Cpp_Exceptions default_limits sample_engine
       ?info ?m)))"
    by (simp add: run_trace [OF reach run] marshalled_def eval_defs)
  from engine_gets_utf8_bytes [OF wf fit a0 a1, of No_Cpp_Exceptions sample_engine] wf fit ec
  show ?thesis
    unfolding k v by (simp add: eval_nat_numeral)
qed

end
